(* ===== verification/Prelude.thy ===== *)
theory Prelude
  imports Main "HOL-Library.AList"
begin

text \<open>
  Shared vocabulary of the VELVEEVA model (src/lib/velveeva.js): the console
  messages the build prints, the JavaScript error values that reject its promises,
  the UTF-8 glyphs of its status lines, the decimal rendering of numbers that
  JavaScript string concatenation performs, and generic lemmas on association
  lists used by the file-system model.  The collections \<open>fs_simps\<close> and
  \<open>machine_simps\<close> gather the rewrite rules of the file-system model and of the
  promise machine.
\<close>

named_theorems fs_simps "rewrite rules of the file-system model"
named_theorems machine_simps "rewrite rules of the promise machine"

section \<open>Paths and glyphs\<close>

text \<open>A file-system path is the list of its components below the root \<open>/\<close>.\<close>

type_synonym path = "string list"

text \<open>
  The status lines of velveeva.js contain non-ASCII glyphs.  Isabelle strings are
  byte lists, so each glyph is written as its UTF-8 encoding, exactly the bytes
  Node writes to the console.
\<close>

definition glyph_arrow :: string where
  \<comment> \<open>U+2937, the arrow in front of every stage note\<close>
  "glyph_arrow = [CHR 0xE2, CHR 0xA4, CHR 0xB7]"

definition glyph_pizza :: string where
  \<comment> \<open>U+1F355, printed after \<open>yum!\<close>\<close>
  "glyph_pizza = [CHR 0xF0, CHR 0x9F, CHR 0x8D, CHR 0x95]"

section \<open>Console output\<close>

text \<open>
  velveeva.js, lines 130--133, prints through four helpers: \<open>note\<close> (blue),
  \<open>error\<close> (a red marker, then the message), \<open>success\<close> (yellow) and
  \<open>stdOut\<close> (grey); line 79 also calls \<open>console.log\<close> directly.  The colours are
  presentation only; a log entry records which helper printed which text.
\<close>

datatype log_msg =
    Note string
  | Error string
  | Success string
  | StdOut string
  | Plain string

section \<open>JavaScript rejection values\<close>

text \<open>
  The values a promise of velveeva.js can be rejected with: a plain string (the
  message of \<open>runShellScript\<close>), an errno error of the file-system libraries
  (code and path), the error object of a Metalsmith build, the error of
  ImageMagick's \<open>convert\<close>, a \<open>TypeError\<close> from reading a property of
  \<open>undefined\<close>, and \<open>undefined\<close> itself (\<open>deferred.reject()\<close> without argument).
\<close>

datatype js_err =
    ErrStr string
  | ErrFs string path
  | ErrBuild string
  | ErrConvert string
  | ErrType string
  | ErrUndefined

section \<open>Decimal rendering\<close>

text \<open>
  JavaScript renders a number in string concatenation as its shortest decimal
  form (\<open>name + ' script exited with status ' + status\<close>, line 234;
  \<open>sizes.thumb.width + 'x' + sizes.thumb.height\<close>, line 316).
\<close>

definition digit_char :: "nat \<Rightarrow> char" where
  "digit_char d = ''0123456789'' ! d"

fun nat_str :: "nat \<Rightarrow> string" where
  "nat_str n = (if n < 10 then [digit_char n] else nat_str (n div 10) @ [digit_char (n mod 10)])"

declare nat_str.simps [simp del]

definition int_str :: "int \<Rightarrow> string" where
  "int_str i = (if i < 0 then CHR ''-'' # nat_str (nat (- i)) else nat_str (nat i))"

text \<open>Reading a decimal back, used to show that rendering loses nothing.\<close>

definition is_digit :: "char \<Rightarrow> bool" where
  "is_digit c \<longleftrightarrow> (48::nat) \<le> of_char c \<and> of_char c \<le> (57::nat)"

fun parse_digits :: "string \<Rightarrow> nat \<Rightarrow> nat option" where
  "parse_digits [] acc = Some acc"
| "parse_digits (c # cs) acc =
     (if is_digit c then parse_digits cs (10 * acc + (of_char c - 48)) else None)"

definition parse_nat :: "string \<Rightarrow> nat option" where
  "parse_nat s = (if s = [] then None else parse_digits s 0)"

section \<open>Lemmas on digits\<close>

lemma less_ten_cases:
  "d < (10::nat) \<Longrightarrow> d = 0 \<or> d = 1 \<or> d = 2 \<or> d = 3 \<or> d = 4 \<or> d = 5 \<or> d = 6 \<or> d = 7 \<or> d = 8 \<or> d = 9"
  by auto

lemma of_char_digit_char: "d < 10 \<Longrightarrow> of_char (digit_char d) = 48 + d"
  using less_ten_cases [of d] by (auto simp: digit_char_def)

lemma is_digit_digit_char [simp]: "d < 10 \<Longrightarrow> is_digit (digit_char d)"
  by (simp add: is_digit_def of_char_digit_char)

lemma nat_str_nonempty [simp]: "nat_str n \<noteq> []"
  by (subst nat_str.simps) simp

lemma nat_str_all_digits: "\<forall>c\<in>set (nat_str n). is_digit c"
proof (induction n rule: nat_str.induct)
  case (1 n)
  then show ?case by (subst nat_str.simps) auto
qed

lemma parse_digits_append:
  "parse_digits (xs @ ys) acc = (case parse_digits xs acc of None \<Rightarrow> None | Some a \<Rightarrow> parse_digits ys a)"
  by (induction xs arbitrary: acc) auto

lemma parse_digits_nat_str:
  "parse_digits (nat_str n) acc = Some (acc * 10 ^ length (nat_str n) + n)"
proof (induction n arbitrary: acc rule: nat_str.induct)
  case (1 n)
  show ?case
  proof (cases "n < 10")
    case True
    then have "nat_str n = [digit_char n]"
      by (subst nat_str.simps) simp
    with True show ?thesis by (simp add: of_char_digit_char)
  next
    case False
    then have "nat_str n = nat_str (n div 10) @ [digit_char (n mod 10)]"
      by (subst nat_str.simps) simp
    with False "1.IH" [of acc] show ?thesis
      by (simp add: parse_digits_append of_char_digit_char algebra_simps)
  qed
qed

lemma parse_nat_nat_str [simp]: "parse_nat (nat_str n) = Some n"
  by (simp add: parse_nat_def parse_digits_nat_str)

lemma nat_str_inj: "nat_str m = nat_str n \<Longrightarrow> m = n"
  by (metis option.inject parse_nat_nat_str)

lemma nat_str_hd_not_minus: "hd (nat_str n) \<noteq> CHR ''-''"
proof -
  have "is_digit (hd (nat_str n))"
    using nat_str_all_digits [of n] by (simp add: hd_in_set)
  then show ?thesis by (auto simp: is_digit_def)
qed

lemma int_str_inj: "int_str a = int_str b \<Longrightarrow> a = b"
proof -
  assume eq: "int_str a = int_str b"
  have minus: "CHR ''-'' # nat_str x \<noteq> nat_str y" for x y
    using nat_str_hd_not_minus [of y] by (metis list.sel(1))
  show "a = b"
  proof (cases "a < 0")
    case True
    show ?thesis
    proof (cases "b < 0")
      case True
      with \<open>a < 0\<close> eq show ?thesis by (auto simp: int_str_def dest: nat_str_inj)
    next
      case False
      with \<open>a < 0\<close> eq minus show ?thesis by (simp add: int_str_def)
    qed
  next
    case False
    show ?thesis
    proof (cases "b < 0")
      case True
      with \<open>\<not> a < 0\<close> eq minus show ?thesis by (metis int_str_def)
    next
      case False
      with \<open>\<not> a < 0\<close> eq show ?thesis by (auto simp: int_str_def dest: nat_str_inj)
    qed
  qed
qed

section \<open>Sums\<close>

text \<open>Results of fallible operations are sums; these decompose a mapped result.\<close>

lemma map_sum_eq_Inr [simp]: "map_sum f g x = Inr y \<longleftrightarrow> (\<exists>z. x = Inr z \<and> y = g z)"
  by (cases x) auto

lemma map_sum_eq_Inl [simp]: "map_sum f g x = Inl y \<longleftrightarrow> (\<exists>z. x = Inl z \<and> y = f z)"
  by (cases x) auto

section \<open>Association lists\<close>

text \<open>
  A directory of the file-system model lists its entries as an association list
  (name, node), in the order \<open>readdirSync\<close> returns them.  The lemmas below are
  the facts on \<open>map_of\<close>, \<open>AList.update\<close> and \<open>AList.delete\<close> its proofs share.
\<close>

lemma map_of_update_same [simp]: "map_of (AList.update k v es) k = Some v"
  by (simp add: AList.update_conv')

lemma map_of_delete_same [simp]: "map_of (AList.delete k es) k = None"
  by (simp add: AList.delete_conv')

lemma set_delete_subset: "set (AList.delete k es) \<subseteq> set es"
  by (auto simp: AList.delete_eq)

lemma set_update_subset: "set (AList.update k v es) \<subseteq> insert (k, v) (set es)"
  by (induction es) auto

lemma map_fst_update_distinct [simp]:
  "distinct (map fst es) \<Longrightarrow> distinct (map fst (AList.update k v es))"
  by (simp add: AList.distinct_update)

lemma map_fst_append_distinct [simp]:
  "map_of es n = None \<Longrightarrow> distinct (map fst es) \<Longrightarrow> distinct (map fst (es @ [(n, c)]))"
  by (auto simp: map_of_eq_None_iff)

lemma map_fst_delete_distinct [simp]:
  "distinct (map fst es) \<Longrightarrow> distinct (map fst (AList.delete k es))"
  by (simp add: AList.distinct_delete)

lemma Suc_less_length_nonempty [simp]: "Suc n < length xs \<Longrightarrow> xs \<noteq> []"
  by (cases xs) auto

end
