(* ===== verification/FileSys.thy ===== *)
theory FileSys
  imports Paths
begin

text \<open>
  The file system as velveeva.js sees it: a tree of directories and files
  (contents are not modelled; the build only asks which files exist).  A directory
  lists its entries as an association list in \<open>readdirSync\<close> order.  On this
  tree the theory defines the contracts of the libraries the code calls:
  \<open>mkdirp\<close> (create a directory and its missing ancestors), \<open>rimraf\<close>
  (remove a tree, succeeding when it is absent), \<open>fs.unlink\<close> (remove one file),
  the writing of a file by PhantomJS or ImageMagick and of a whole tree by a
  Metalsmith build, and the two directory listings \<open>getDirectories\<close> and
  \<open>getFiles\<close> of velveeva.js (lines 118--128).  Failures carry the errno code
  Node reports.  The promise wrappers \<open>mkdir\<close>, \<open>rmdir\<close> and \<open>rm\<close>
  (lines 75--115) turn these results into settled promises.
\<close>

section \<open>Trees\<close>

datatype node = File | Dir "(string \<times> node) list"

fun lookup :: "node \<Rightarrow> path \<Rightarrow> node option" where
  "lookup t [] = Some t"
| "lookup File (n # p) = None"
| "lookup (Dir es) (n # p) = (case map_of es n of None \<Rightarrow> None | Some c \<Rightarrow> lookup c p)"

fun wf_node :: "node \<Rightarrow> bool" where
  "wf_node File = True"
| "wf_node (Dir es) =
     (distinct (map fst es) \<and> (\<forall>x\<in>set es. valid_name (fst x) \<and> wf_node (snd x)))"

definition is_dir :: "node \<Rightarrow> bool" where
  "is_dir t \<longleftrightarrow> t \<noteq> File"

definition valid_path :: "path \<Rightarrow> bool" where
  "valid_path p \<longleftrightarrow> (\<forall>c\<in>set p. valid_name c)"

section \<open>Library operations\<close>

text \<open>
  \<open>mkdirp\<close>: a missing component is created as an empty directory (and appended to
  its parent's listing); an existing directory is descended into; a file on the way
  fails with \<open>ENOTDIR\<close>, a file at the target with \<open>EEXIST\<close>; an existing
  directory at the target is success.
\<close>

fun mkdirp_node :: "path \<Rightarrow> node \<Rightarrow> string + node" where
  "mkdirp_node [] File = Inl ''EEXIST''"
| "mkdirp_node [] (Dir es) = Inr (Dir es)"
| "mkdirp_node (n # p) File = Inl ''ENOTDIR''"
| "mkdirp_node (n # p) (Dir es) =
     (case map_of es n of
        None \<Rightarrow> map_sum id (\<lambda>c. Dir (es @ [(n, c)])) (mkdirp_node p (Dir []))
      | Some c \<Rightarrow> map_sum id (\<lambda>c'. Dir (AList.update n c' es)) (mkdirp_node p c))"

text \<open>
  \<open>rimraf\<close>: the entry at the path is removed with everything below it; an absent
  entry or ancestor is success (\<open>ENOENT\<close> is ignored); a file on the way fails
  with \<open>ENOTDIR\<close>; the root itself cannot be removed.
\<close>

fun rimraf_node :: "path \<Rightarrow> node \<Rightarrow> string + node" where
  "rimraf_node [] t = Inl ''EPERM''"
| "rimraf_node [n] File = Inl ''ENOTDIR''"
| "rimraf_node [n] (Dir es) = Inr (Dir (AList.delete n es))"
| "rimraf_node (n # m # p) File = Inl ''ENOTDIR''"
| "rimraf_node (n # m # p) (Dir es) =
     (case map_of es n of
        None \<Rightarrow> Inr (Dir es)
      | Some c \<Rightarrow> map_sum id (\<lambda>c'. Dir (AList.update n c' es)) (rimraf_node (m # p) c))"

text \<open>\<open>fs.unlink\<close>: only an existing file can be removed.\<close>

fun unlink_node :: "path \<Rightarrow> node \<Rightarrow> string + node" where
  "unlink_node [] t = Inl ''EISDIR''"
| "unlink_node [n] File = Inl ''ENOTDIR''"
| "unlink_node [n] (Dir es) =
     (case map_of es n of
        None \<Rightarrow> Inl ''ENOENT''
      | Some File \<Rightarrow> Inr (Dir (AList.delete n es))
      | Some (Dir _) \<Rightarrow> Inl ''EISDIR'')"
| "unlink_node (n # m # p) File = Inl ''ENOTDIR''"
| "unlink_node (n # m # p) (Dir es) =
     (case map_of es n of
        None \<Rightarrow> Inl ''ENOENT''
      | Some c \<Rightarrow> map_sum id (\<lambda>c'. Dir (AList.update n c' es)) (unlink_node (m # p) c))"

text \<open>
  Placing a node at a path, creating missing ancestors: how a Metalsmith build
  leaves its destination tree (Metalsmith empties the destination first and
  recreates it with the built files).
\<close>

fun put_node :: "path \<Rightarrow> node \<Rightarrow> node \<Rightarrow> string + node" where
  "put_node [] x t = Inr x"
| "put_node (n # p) x File = Inl ''ENOTDIR''"
| "put_node (n # p) x (Dir es) =
     (case map_of es n of
        None \<Rightarrow> map_sum id (\<lambda>c. Dir (es @ [(n, c)])) (put_node p x (Dir []))
      | Some c \<Rightarrow> map_sum id (\<lambda>c'. Dir (AList.update n c' es)) (put_node p x c))"

text \<open>Writing one file (PhantomJS' \<open>page.render\<close>, ImageMagick's output): the parent must be a directory.\<close>

definition write_file :: "path \<Rightarrow> node \<Rightarrow> string + node" where
  "write_file p t =
     (if p = [] then Inl ''EISDIR''
      else case lookup t p of
        Some (Dir _) \<Rightarrow> Inl ''EISDIR''
      | _ \<Rightarrow> (case lookup t (butlast p) of
                None \<Rightarrow> Inl ''ENOENT''
              | Some File \<Rightarrow> Inl ''ENOTDIR''
              | Some (Dir _) \<Rightarrow> put_node p File t))"

section \<open>The directory listings of velveeva.js\<close>

text \<open>
  \<open>fs.readdirSync(srcpath)\<close> throws \<open>ENOENT\<close> or \<open>ENOTDIR\<close>; otherwise
  \<open>getDirectories\<close> keeps the entries that \<open>statSync\<close> reports as directories and
  \<open>getFiles\<close> those it reports as files (lines 118--128).
\<close>

definition readdir :: "node \<Rightarrow> path \<Rightarrow> js_err + (string \<times> node) list" where
  "readdir t p =
     (case lookup t p of
        None \<Rightarrow> Inl (ErrFs ''ENOENT'' p)
      | Some File \<Rightarrow> Inl (ErrFs ''ENOTDIR'' p)
      | Some (Dir es) \<Rightarrow> Inr es)"

definition getDirectories :: "node \<Rightarrow> path \<Rightarrow> js_err + string list" where
  "getDirectories t p = map_sum id (\<lambda>es. map fst (filter (\<lambda>e. is_dir (snd e)) es)) (readdir t p)"

definition getFiles :: "node \<Rightarrow> path \<Rightarrow> js_err + string list" where
  "getFiles t p = map_sum id (\<lambda>es. map fst (filter (\<lambda>e. snd e = File) es)) (readdir t p)"

section \<open>Promise wrappers\<close>

text \<open>
  \<open>mkdir\<close> (lines 75--88) rejects with the error of \<open>mkdirp\<close> after printing
  \<open>error\<close>; \<open>rmdir\<close> (lines 90--102) and \<open>rm\<close> (lines 104--115) reject with
  the error of \<open>rimraf\<close> and \<open>fs.unlink\<close>.  Each returns the settlement of its
  promise, the new tree and the console output.
\<close>

definition mkdir :: "path \<Rightarrow> node \<Rightarrow> (js_err + unit) \<times> node \<times> log_msg list" where
  "mkdir p t =
     (case mkdirp_node p t of
        Inl code \<Rightarrow> (Inl (ErrFs code p), t, [Plain ''error''])
      | Inr t' \<Rightarrow> (Inr (), t', []))"

definition rmdir :: "path \<Rightarrow> node \<Rightarrow> (js_err + unit) \<times> node \<times> log_msg list" where
  "rmdir p t =
     (case rimraf_node p t of
        Inl code \<Rightarrow> (Inl (ErrFs code p), t, [])
      | Inr t' \<Rightarrow> (Inr (), t', []))"

definition rm :: "path \<Rightarrow> node \<Rightarrow> (js_err + unit) \<times> node \<times> log_msg list" where
  "rm p t =
     (case unlink_node p t of
        Inl code \<Rightarrow> (Inl (ErrFs code p), t, [])
      | Inr t' \<Rightarrow> (Inr (), t', []))"

section \<open>Lemmas on association-list directories\<close>

lemma update_same_idem: "map_of es k = Some v \<Longrightarrow> AList.update k v es = es"
  by (induction es) auto

lemma wf_DirD:
  "wf_node (Dir es) \<Longrightarrow> map_of es n = Some c \<Longrightarrow> wf_node c \<and> valid_name n"
  by (auto dest: map_of_SomeD)

lemma wf_Dir_update:
  assumes "wf_node (Dir es)" "wf_node c" "valid_name n"
  shows "wf_node (Dir (AList.update n c es))"
  using assms set_update_subset [of n c es] by auto

lemma wf_Dir_append:
  assumes "wf_node (Dir es)" "wf_node c" "valid_name n" "map_of es n = None"
  shows "wf_node (Dir (es @ [(n, c)]))"
  using assms by auto

lemma wf_Dir_delete:
  assumes "wf_node (Dir es)"
  shows "wf_node (Dir (AList.delete n es))"
  using assms set_delete_subset [of n es] by (auto simp: AList.distinct_delete)

lemmas wf_Dir_intros [fs_simps] = wf_Dir_update wf_Dir_append wf_Dir_delete

lemma lookup_append_new [fs_simps]:
  "map_of es n = None \<Longrightarrow> lookup (Dir (es @ [(n, c)])) (n # p) = lookup c p"
  by (simp add: map_add_def)

lemma lookup_update_same [fs_simps]:
  "lookup (Dir (AList.update n c es)) (n # p) = lookup c p"
  by (simp add: AList.update_conv')

section \<open>mkdirp\<close>

lemma mkdirp_node_dir:
  "mkdirp_node p t = Inr t' \<Longrightarrow> \<exists>es. lookup t' p = Some (Dir es)"
proof (induction p t arbitrary: t' rule: mkdirp_node.induct)
  case (4 n p es)
  then show ?case
    by (auto simp: fs_simps split: option.splits)
qed auto

lemma mkdirp_node_idem:
  "mkdirp_node p t = Inr t' \<Longrightarrow> mkdirp_node p t' = Inr t'"
proof (induction p t arbitrary: t' rule: mkdirp_node.induct)
  case (4 n p es)
  show ?case
  proof (cases "map_of es n")
    case None
    with "4.prems" obtain c where c: "mkdirp_node p (Dir []) = Inr c" "t' = Dir (es @ [(n, c)])"
      by auto
    with "4.IH"(1) None have "mkdirp_node p c = Inr c" by simp
    with c None show ?thesis
      by (simp add: map_add_def update_same_idem)
  next
    case (Some c)
    with "4.prems" obtain c' where c': "mkdirp_node p c = Inr c'" "t' = Dir (AList.update n c' es)"
      by auto
    with "4.IH"(2) Some have "mkdirp_node p c' = Inr c'" by simp
    with c' show ?thesis
      by (simp add: AList.update_conv' update_same_idem)
  qed
qed auto

lemma mkdirp_node_wf:
  "mkdirp_node p t = Inr t' \<Longrightarrow> wf_node t \<Longrightarrow> valid_path p \<Longrightarrow> wf_node t'"
proof (induction p t arbitrary: t' rule: mkdirp_node.induct)
  case (4 n p es)
  from "4.prems" have wf: "wf_node (Dir es)" and vn: "valid_name n" and vp: "valid_path p"
    by (auto simp: valid_path_def)
  show ?case
  proof (cases "map_of es n")
    case None
    with "4.prems"(1) obtain c where c: "mkdirp_node p (Dir []) = Inr c" "t' = Dir (es @ [(n, c)])"
      by auto
    from "4.IH"(1) [OF None c(1)] vp have "wf_node c" by simp
    then show ?thesis unfolding c(2) by (rule wf_Dir_append [OF wf _ vn None])
  next
    case (Some c0)
    with "4.prems"(1) obtain c where c: "mkdirp_node p c0 = Inr c" "t' = Dir (AList.update n c es)"
      by auto
    from wf Some have "wf_node c0" by (auto dest: wf_DirD)
    with "4.IH"(2) [OF Some c(1)] vp have "wf_node c" by simp
    then show ?thesis unfolding c(2) by (rule wf_Dir_update [OF wf _ vn])
  qed
qed auto

lemma mkdirp_node_keeps_files:
  "mkdirp_node p t = Inr t' \<Longrightarrow> lookup t q = Some File \<Longrightarrow> lookup t' q = Some File"
proof (induction p t arbitrary: t' q rule: mkdirp_node.induct)
  case (4 n p es)
  show ?case
  proof (cases q)
    case Nil
    with "4.prems" show ?thesis by simp
  next
    case (Cons m q')
    show ?thesis
    proof (cases "map_of es n")
      case None
      with "4.prems" Cons show ?thesis
        by (auto simp: map_add_def split: option.splits)
    next
      case (Some c)
      with "4.prems" "4.IH"(2) Cons show ?thesis
        by (auto simp: AList.update_conv' split: option.splits if_splits)
    qed
  qed
qed auto

section \<open>rimraf\<close>

lemma rimraf_node_absent:
  "lookup t p = None \<Longrightarrow> (\<forall>i<length p. lookup t (take i p) \<noteq> Some File) \<Longrightarrow>
   rimraf_node p t = Inr t"
proof (induction p t rule: rimraf_node.induct)
  case (3 n es)
  then show ?case
    by (simp add: AList.delete_id map_of_eq_None_iff split: option.splits)
next
  case (5 n m p es)
  show ?case
  proof (cases "map_of es n")
    case None
    then show ?thesis by simp
  next
    case (Some c)
    have "\<forall>i<length (m # p). lookup c (take i (m # p)) \<noteq> Some File"
    proof (intro allI impI)
      fix i assume "i < length (m # p)"
      with "5.prems"(2) have "lookup (Dir es) (take (Suc i) (n # m # p)) \<noteq> Some File"
        by (metis Suc_less_eq length_Cons)
      with Some show "lookup c (take i (m # p)) \<noteq> Some File" by simp
    qed
    with Some "5.prems"(1) "5.IH" have "rimraf_node (m # p) c = Inr c" by simp
    with Some show ?thesis by (simp add: update_same_idem)
  qed
next
  case (2 n)
  then show ?case by (metis length_Cons lessI lookup.simps(1) take_0 zero_less_Suc)
next
  case (4 n m p)
  then show ?case by (metis length_Cons lookup.simps(1) take_0 zero_less_Suc)
qed simp

lemma rimraf_node_removes:
  "rimraf_node p t = Inr t' \<Longrightarrow> lookup t' p = None"
proof (induction p t arbitrary: t' rule: rimraf_node.induct)
  case (5 n m p es)
  then show ?case
    by (auto simp: fs_simps split: option.splits)
qed auto

lemma rimraf_node_wf:
  "rimraf_node p t = Inr t' \<Longrightarrow> wf_node t \<Longrightarrow> wf_node t'"
proof (induction p t arbitrary: t' rule: rimraf_node.induct)
  case (5 n m p es)
  show ?case
  proof (cases "map_of es n")
    case None
    with "5.prems" show ?thesis by simp
  next
    case (Some c0)
    with "5.prems"(1) obtain c where c: "rimraf_node (m # p) c0 = Inr c" "t' = Dir (AList.update n c es)"
      by auto
    from "5.prems"(2) Some have "wf_node c0" "valid_name n" by (auto dest: wf_DirD)
    with "5.IH" [OF Some c(1)] have "wf_node c" by simp
    then show ?thesis unfolding c(2) by (rule wf_Dir_update [OF "5.prems"(2) _ \<open>valid_name n\<close>])
  qed
next
  case (3 n es)
  then have "t' = Dir (AList.delete n es)" by simp
  then show ?case using wf_Dir_delete [OF "3.prems"(2)] by simp
qed auto

section \<open>unlink\<close>

lemma unlink_node_missing:
  "lookup t p = None \<Longrightarrow> unlink_node p t = Inl ''ENOENT'' \<or> unlink_node p t = Inl ''ENOTDIR''"
proof (induction p t rule: unlink_node.induct)
  case (5 n m p es)
  then show ?case by (auto split: option.splits)
qed (auto split: option.splits node.splits)

lemma unlink_node_removes_file:
  "unlink_node p t = Inr t' \<Longrightarrow> lookup t p = Some File \<and> lookup t' p = None"
proof (induction p t arbitrary: t' rule: unlink_node.induct)
  case (3 n es)
  then show ?case
    by (auto split: option.splits node.splits)
next
  case (5 n m p es)
  then show ?case
    by (auto simp: fs_simps split: option.splits)
qed auto

section \<open>Listings\<close>

lemma wf_lookup: "wf_node t \<Longrightarrow> lookup t p = Some x \<Longrightarrow> wf_node x"
  by (induction t p rule: lookup.induct) (auto dest: wf_DirD split: option.splits)

lemma listings_partition:
  assumes "wf_node t" "readdir t p = Inr es"
    and "getDirectories t p = Inr ds" "getFiles t p = Inr fs"
  shows "set ds \<union> set fs = fst ` set es \<and> set ds \<inter> set fs = {}"
proof -
  from assms(2) have look: "lookup t p = Some (Dir es)"
    by (auto simp: readdir_def split: option.splits node.splits)
  with assms(1) have dist: "distinct (map fst es)"
    by (metis wf_lookup wf_node.simps(2))
  from assms(2-4) have ds: "ds = map fst (filter (\<lambda>e. is_dir (snd e)) es)"
    and fs: "fs = map fst (filter (\<lambda>e. snd e = File) es)"
    by (auto simp: getDirectories_def getFiles_def)
  have "set ds \<union> set fs = fst ` set es"
    using ds fs by (auto simp: is_dir_def)
  moreover have "set ds \<inter> set fs = {}"
  proof (rule ccontr)
    assume "set ds \<inter> set fs \<noteq> {}"
    then obtain n d where "(n, d) \<in> set es" "is_dir d" "(n, File) \<in> set es"
      using ds fs by auto
    then have "map_of es n = Some d" "map_of es n = Some File"
      using map_of_is_SomeI [OF dist] by blast+
    with \<open>is_dir d\<close> show False by (simp add: is_dir_def)
  qed
  ultimately show ?thesis ..
qed

section \<open>Properties\<close>

text \<open>
  C21: \<open>mkdir\<close> (the \<open>mkdirp\<close> wrapper used for the temporary directory) on a
  well-formed tree and a path of proper names, when it resolves, leaves a directory at
  the path, keeps every existing file, keeps the tree well-formed, and is idempotent:
  calling it again resolves without changing anything.
\<close>

theorem mkdir_correct:
  assumes "mkdir p t = (Inr (), t', log)" "wf_node t" "valid_path p"
  shows "(\<exists>es. lookup t' p = Some (Dir es)) \<and> wf_node t' \<and> log = [] \<and>
    (\<forall>q. lookup t q = Some File \<longrightarrow> lookup t' q = Some File) \<and>
    mkdir p t' = (Inr (), t', [])"
proof -
  from assms(1) have mk: "mkdirp_node p t = Inr t'" and log: "log = []"
    by (auto simp: mkdir_def split: sum.splits)
  show ?thesis
    using mkdirp_node_dir [OF mk] mkdirp_node_wf [OF mk assms(2,3)] log
      mkdirp_node_keeps_files [OF mk] mkdirp_node_idem [OF mk]
    by (simp add: mkdir_def)
qed

theorem mkdir_correct_witness:
  "mkdir [''home'', ''temp''] (Dir [(''home'', Dir [(''a'', File)])]) =
     (Inr (), Dir [(''home'', Dir [(''a'', File), (''temp'', Dir [])])], []) \<and>
   mkdir [''home'', ''temp''] (Dir [(''home'', Dir [(''a'', File), (''temp'', Dir [])])]) =
     (Inr (), Dir [(''home'', Dir [(''a'', File), (''temp'', Dir [])])], [])"
proof -
  have run: "mkdir [''home'', ''temp''] (Dir [(''home'', Dir [(''a'', File)])]) =
     (Inr (), Dir [(''home'', Dir [(''a'', File), (''temp'', Dir [])])], [])"
    by (simp add: mkdir_def)
  have "wf_node (Dir [(''home'', Dir [(''a'', File)])])" "valid_path [''home'', ''temp'']"
    by (simp_all add: valid_name_def valid_path_def)
  with run show ?thesis using mkdir_correct by blast
qed

text \<open>
  C22: \<open>rmdir\<close> (the \<open>rimraf\<close> wrapper used to clean the temporary directory)
  resolves without any change when the path does not exist and no file lies on the way
  to it; whenever it resolves, nothing is left at the path and a well-formed tree stays
  well-formed.
\<close>

theorem rmdir_absent_and_removes:
  "(lookup t p = None \<and> (\<forall>i<length p. lookup t (take i p) \<noteq> Some File) \<longrightarrow>
      rmdir p t = (Inr (), t, [])) \<and>
   (rmdir p t = (Inr (), t', log) \<longrightarrow> lookup t' p = None \<and> (wf_node t \<longrightarrow> wf_node t'))"
  using rimraf_node_absent [of t p] rimraf_node_removes [of p t t'] rimraf_node_wf [of p t t']
  by (auto simp: rmdir_def split: sum.splits)

theorem rmdir_absent_and_removes_witness:
  "rmdir [''home'', ''temp''] (Dir [(''home'', Dir [(''a'', File)])]) =
     (Inr (), Dir [(''home'', Dir [(''a'', File)])], []) \<and>
   rmdir [''home'', ''a''] (Dir [(''home'', Dir [(''a'', File)])]) = (Inr (), Dir [(''home'', Dir [])], [])"
proof -
  have "lookup (Dir [(''home'', Dir [(''a'', File)])]) [''home'', ''temp''] = None \<and>
    (\<forall>i<length [''home'', ''temp'']. lookup (Dir [(''home'', Dir [(''a'', File)])])
       (take i [''home'', ''temp'']) \<noteq> Some File)"
    by (simp add: less_Suc_eq numeral_2_eq_2)
  then show ?thesis
    using rmdir_absent_and_removes [of "Dir [(''home'', Dir [(''a'', File)])]" "[''home'', ''temp'']"]
    by (simp add: rmdir_def)
qed

text \<open>
  C23: \<open>rm\<close> (the \<open>fs.unlink\<close> wrapper that deletes the intermediate screenshot)
  rejects with \<open>ENOENT\<close> or \<open>ENOTDIR\<close> when nothing exists at the path, and when it
  resolves it has removed a file that was there.
\<close>

theorem rm_missing_rejects:
  "(lookup t p = None \<longrightarrow> (\<exists>code \<in> {''ENOENT'', ''ENOTDIR''}. rm p t = (Inl (ErrFs code p), t, []))) \<and>
   (rm p t = (Inr (), t', log) \<longrightarrow> lookup t p = Some File \<and> lookup t' p = None)"
  using unlink_node_missing [of t p]
  by (auto simp: rm_def dest: unlink_node_removes_file split: sum.splits)

theorem rm_missing_rejects_witness:
  "lookup (Dir [(''home'', Dir [])]) [''home'', ''x.png''] = None \<and>
   (\<exists>code \<in> {''ENOENT'', ''ENOTDIR''}. rm [''home'', ''x.png''] (Dir [(''home'', Dir [])]) =
      (Inl (ErrFs code [''home'', ''x.png'']), Dir [(''home'', Dir [])], []))"
  using rm_missing_rejects [of "Dir [(''home'', Dir [])]" "[''home'', ''x.png'']"]
  by simp



end
