(* ===== verification/Deferred.thy ===== *)
theory Deferred
  imports Prelude
begin

text \<open>
  Q deferreds (\<open>Q.defer()\<close>), the bridge velveeva.js uses from Node callbacks to
  promises: a deferred is pending, fulfilled or rejected, and only its first
  \<open>resolve\<close> or \<open>reject\<close> counts.  \<open>node_callback\<close> is the bridge of
  \<open>buildPromise\<close>, \<open>mkdir\<close>, \<open>rmdir\<close> and \<open>rm\<close> (lines 51--115): reject
  on an error, resolve otherwise.  \<open>convertImage_callback\<close> is the bridge of
  \<open>convertImage\<close> (lines 264--275), which rejects on an error and then calls
  \<open>resolve\<close> as well, without an \<open>else\<close>.
\<close>

datatype ('v, 'e) pstate = Pending | Fulfilled 'v | Rejected 'e

definition deferred_resolve :: "'v \<Rightarrow> ('v, 'e) pstate \<Rightarrow> ('v, 'e) pstate" where
  "deferred_resolve v d = (case d of Pending \<Rightarrow> Fulfilled v | _ \<Rightarrow> d)"

definition deferred_reject :: "'e \<Rightarrow> ('v, 'e) pstate \<Rightarrow> ('v, 'e) pstate" where
  "deferred_reject e d = (case d of Pending \<Rightarrow> Rejected e | _ \<Rightarrow> d)"

datatype ('v, 'e) settle_call = Resolve 'v | Reject 'e

fun settle :: "('v, 'e) pstate \<Rightarrow> ('v, 'e) settle_call \<Rightarrow> ('v, 'e) pstate" where
  "settle d (Resolve v) = deferred_resolve v d"
| "settle d (Reject e) = deferred_reject e d"

definition node_callback :: "'e option \<Rightarrow> 'v \<Rightarrow> ('v, 'e) pstate" where
  "node_callback err v = (case err of Some e \<Rightarrow> deferred_reject e Pending | None \<Rightarrow> deferred_resolve v Pending)"

definition convertImage_callback :: "'e option \<Rightarrow> (unit, 'e) pstate" where
  "convertImage_callback err =
     deferred_resolve () (case err of Some e \<Rightarrow> deferred_reject e Pending | None \<Rightarrow> Pending)"

text \<open>The value of a settled deferred as a result: \<open>Inl\<close> the rejection.\<close>

fun settled_result :: "('v, 'e) pstate \<Rightarrow> ('e + 'v) option" where
  "settled_result Pending = None"
| "settled_result (Fulfilled v) = Some (Inr v)"
| "settled_result (Rejected e) = Some (Inl e)"

lemma settle_settled [simp]: "d \<noteq> Pending \<Longrightarrow> settle d c = d"
  by (cases c; cases d) (auto simp: deferred_resolve_def deferred_reject_def)

lemma foldl_settle_settled: "d \<noteq> Pending \<Longrightarrow> foldl settle d cs = d"
  by (induction cs) auto



end
