(* ===== verification/Shell.thy ===== *)
theory Shell
  imports Deferred
begin

text \<open>
  The shell-process runner \<open>runShellScript(cmd, args, name, shellOpts)\<close>
  (velveeva.js, lines 216--239).  The spawned process delivers a sequence of events:
  chunks on standard output (printed through \<open>stdOut\<close> only when
  \<open>CONFIG.FLAGS.VERBOSE\<close> is set), chunks on standard error (always printed
  through \<open>error\<close>), and its \<open>exit\<close> with a status, which is \<open>null\<close> when a
  signal killed it.  Status \<open>0\<close> resolves the deferred; any other status rejects
  it with the string \<open>name + ' script exited with status ' + status\<close>.  The
  deferred settles once, so only the first exit counts; a process that never exits
  leaves the promise pending for ever (there is no timeout).
\<close>

datatype proc_event = StdoutData string | StderrData string | ExitEvent "int option"

record shell_state =
  shell_log :: "log_msg list"
  shell_promise :: "(unit, js_err) pstate"

definition status_str :: "int option \<Rightarrow> string" where
  "status_str st = (case st of None \<Rightarrow> ''null'' | Some i \<Rightarrow> int_str i)"

definition exit_message :: "string \<Rightarrow> int option \<Rightarrow> string" where
  "exit_message name st = name @ '' script exited with status '' @ status_str st"

text \<open>One event handler of lines 222--236.\<close>

fun shell_on :: "bool \<Rightarrow> string \<Rightarrow> shell_state \<Rightarrow> proc_event \<Rightarrow> shell_state" where
  "shell_on verbose name s (StdoutData d) =
     (if verbose then s\<lparr>shell_log := shell_log s @ [StdOut (''stdout: '' @ d)]\<rparr> else s)"
| "shell_on verbose name s (StderrData d) =
     s\<lparr>shell_log := shell_log s @ [Error (''stderr: '' @ d)]\<rparr>"
| "shell_on verbose name s (ExitEvent st) =
     s\<lparr>shell_promise :=
        (if st = Some 0 then deferred_resolve () (shell_promise s)
         else deferred_reject (ErrStr (exit_message name st)) (shell_promise s))\<rparr>"

definition runShellScript :: "bool \<Rightarrow> string \<Rightarrow> proc_event list \<Rightarrow> shell_state" where
  "runShellScript verbose name evs =
     foldl (shell_on verbose name) \<lparr>shell_log = [], shell_promise = Pending\<rparr> evs"

text \<open>The log an event contributes, and the first exit status of a run.\<close>

fun event_log :: "bool \<Rightarrow> proc_event \<Rightarrow> log_msg list" where
  "event_log verbose (StdoutData d) = (if verbose then [StdOut (''stdout: '' @ d)] else [])"
| "event_log verbose (StderrData d) = [Error (''stderr: '' @ d)]"
| "event_log verbose (ExitEvent st) = []"

fun first_exit :: "proc_event list \<Rightarrow> int option option" where
  "first_exit [] = None"
| "first_exit (ExitEvent st # evs) = Some st"
| "first_exit (_ # evs) = first_exit evs"

lemma shell_log_foldl:
  "shell_log (foldl (shell_on v n) s evs) = shell_log s @ concat (map (event_log v) evs)"
proof (induction evs arbitrary: s)
  case (Cons e evs)
  then show ?case by (cases e) simp_all
qed simp

lemma shell_promise_settled:
  "shell_promise s \<noteq> Pending \<Longrightarrow> shell_promise (foldl (shell_on v n) s evs) = shell_promise s"
proof (induction evs arbitrary: s)
  case (Cons e evs)
  then show ?case
    by (cases e) (auto simp: deferred_resolve_def deferred_reject_def split: pstate.splits)
qed simp

lemma shell_promise_foldl:
  "shell_promise s = Pending \<Longrightarrow>
   shell_promise (foldl (shell_on v n) s evs) =
     (case first_exit evs of
        None \<Rightarrow> Pending
      | Some st \<Rightarrow> if st = Some 0 then Fulfilled () else Rejected (ErrStr (exit_message n st)))"
proof (induction evs arbitrary: s)
  case (Cons e evs)
  show ?case
  proof (cases e)
    case (ExitEvent st)
    with Cons.prems show ?thesis
      by (simp add: shell_promise_settled deferred_resolve_def deferred_reject_def)
  qed (use Cons in simp_all)
qed simp

section \<open>Properties\<close>

text \<open>
  C16: The promise of \<open>runShellScript\<close> is settled by the first exit of the process
  alone: pending before it, fulfilled when the status is \<open>0\<close>, and otherwise
  rejected with \<open>name + ' script exited with status ' + status\<close>; output after the
  exit and later exits change nothing.
\<close>

theorem runShellScript_result:
  "shell_promise (runShellScript v name evs) =
     (case first_exit evs of
        None \<Rightarrow> Pending
      | Some st \<Rightarrow> if st = Some 0 then Fulfilled () else Rejected (ErrStr (exit_message name st)))"
  by (simp add: runShellScript_def shell_promise_foldl)

theorem runShellScript_result_witness:
  "shell_promise (runShellScript False ''Packaging'' [StderrData ''oops'', ExitEvent (Some 2), ExitEvent (Some 0)]) =
     Rejected (ErrStr ''Packaging script exited with status 2'') \<and>
   shell_promise (runShellScript False ''Linking'' [ExitEvent (Some 0)]) = Fulfilled ()"
  using runShellScript_result [of False "''Packaging''" "[StderrData ''oops'', ExitEvent (Some 2), ExitEvent (Some 0)]"]
    runShellScript_result [of False "''Linking''" "[ExitEvent (Some 0)]"]
  by (simp add: exit_message_def status_str_def int_str_def nat_str.simps digit_char_def)



text \<open>
  C18: The rejection message names the exit status faithfully: two different exit
  statuses (a number, or \<open>null\<close> for a signal) of the same script always give
  different messages, so the status can be read back from the message; for status 2 of
  the packaging script the message is \<open>Packaging script exited with status 2\<close>.
\<close>

theorem exit_message_status_injective:
  "exit_message name s1 = exit_message name s2 \<Longrightarrow> s1 = s2"
proof -
  assume eq: "exit_message name s1 = exit_message name s2"
  then have st: "status_str s1 = status_str s2" by (simp add: exit_message_def)
  have null: "''null'' \<noteq> int_str i" for i
  proof
    assume eq: "''null'' = int_str i"
    have "\<not> is_digit CHR ''n''" by (simp add: is_digit_def)
    moreover have "is_digit (hd (nat_str k))" for k
      using nat_str_all_digits [of k] by (simp add: hd_in_set)
    ultimately show False using eq by (auto simp: int_str_def split: if_splits) (metis list.sel(1))
  qed
  show "s1 = s2"
  proof (cases s1)
    case None
    with st null show ?thesis by (cases s2) (auto simp: status_str_def)
  next
    case (Some a)
    with st null show ?thesis by (cases s2) (auto simp: status_str_def dest: int_str_inj sym)
  qed
qed

theorem exit_message_status_injective_witness:
  "exit_message ''Packaging'' (Some 2) = ''Packaging script exited with status 2'' \<and> Some (2::int) = Some 2"
  using exit_message_status_injective [of "''Packaging''" "Some 2" "Some 2", OF refl]
  by (simp add: exit_message_def status_str_def int_str_def nat_str.simps digit_char_def)

end
