(* ===== verification/Effects.thy ===== *)
theory Effects
  imports FileSys Shell
begin

text \<open>
  The asynchronous operations velveeva.js starts and how each one completes.  An
  operation is started by a promise chain and completes later with data the outside
  world chooses: the tree a Metalsmith build wrote, the events of a child process,
  the error argument of ImageMagick's callback.  Operations whose outcome is fixed by
  the file system (\<open>mkdirp\<close>, \<open>rimraf\<close>, \<open>fs.unlink\<close>) take no choice.  The
  completion yields the settlement of the operation's promise (through the bridges of
  theory \<open>Deferred\<close> and the runner of theory \<open>Shell\<close>), the new tree and the
  console output printed meanwhile; \<open>None\<close> when the choice does not fit the
  operation, or when the promise would stay pending (a process that never exits).  A
  change event of the watcher is the line its \<open>'all'\<close> listener prints,
  \<open>console.log(chalk.blue(event), path)\<close>.
\<close>

section \<open>Operations\<close>

text \<open>
  The two Metalsmith pipelines of \<open>bake\<close>: the assemble stage (partials, templates
  and the recursive assets plugin, lines 157--173) with the directories of its
  plugins, and the style stage (\<open>metalsmith-sass\<close>, lines 178--182).
\<close>

datatype ms_stage = Assemble path path path | Sass

datatype ext_op =
    OMkdirp path
  | ORimraf path
  | OUnlink path
  | OBuild ms_stage path path
  | OSpawn string "string list" "path option" string bool
  | ORender string path nat nat
  | OConvert "string list"
  | OWatch "string list"

text \<open>
  \<open>OBuild stage source destination\<close>; \<open>OSpawn cmd args cwd name verbose\<close> is
  \<open>spawn(cmd, args, {cwd})\<close> under \<open>runShellScript\<close> with its label and the value
  of \<open>CONFIG.FLAGS.VERBOSE\<close>; \<open>ORender url output width height\<close> is the PhantomJS
  session of \<open>renderPage\<close>, with the viewport \<open>sizes.full\<close>; \<open>OConvert args\<close> is
  \<open>im.convert(args)\<close>; \<open>OWatch paths\<close> waits for the next change that
  \<open>chokidar.watch(paths)\<close> reports.
\<close>

datatype env_res =
    EnvNone
  | EnvBuild "string option" node
  | EnvProc "proc_event list"
  | EnvConvert "string option"
  | EnvWatch string string

section \<open>Completions\<close>

text \<open>
  A Metalsmith build leaves the tree it wrote at the destination (Metalsmith empties
  the destination first), and its callback reports an error or none; the build is not
  transactional, so a failed build may also have written a partial tree.
\<close>

definition build_result :: "path \<Rightarrow> string option \<Rightarrow> node \<Rightarrow> node \<Rightarrow> (js_err + unit) \<times> node \<times> log_msg list" where
  "build_result dst err out t =
     (case put_node dst out t of
        Inl code \<Rightarrow> (Inl (ErrFs code dst), t, [])
      | Inr t' \<Rightarrow> (the (settled_result (node_callback (map_option ErrBuild err) ())), t', []))"

text \<open>
  ImageMagick reads its first argument and writes its last.  A missing input fails;
  otherwise the callback's error decides, and on success the output file exists.
  The settlement goes through \<open>convertImage\<close>'s bridge.
\<close>

definition convert_result :: "string list \<Rightarrow> string option \<Rightarrow> node \<Rightarrow> (js_err + unit) \<times> node \<times> log_msg list" where
  "convert_result args err t =
     (if args = [] \<or> lookup t (parse_path (hd args)) \<noteq> Some File
      then (Inl (ErrConvert ''unable to open image''), t, [])
      else case convertImage_callback (map_option ErrConvert err) of
        Rejected e \<Rightarrow> (Inl e, t, [])
      | _ \<Rightarrow> (case write_file (parse_path (last args)) t of
               Inl code \<Rightarrow> (Inl (ErrConvert code), t, [])
             | Inr t' \<Rightarrow> (Inr (), t', [])))"

text \<open>
  \<open>renderPage\<close> (lines 277--297) resolves once PhantomJS has rendered and exited; it
  has no rejection path, so a failing page still resolves (a PhantomJS that never
  calls back leaves it pending).  The picture is written when its directory exists.
\<close>

definition render_result :: "path \<Rightarrow> node \<Rightarrow> (js_err + unit) \<times> node \<times> log_msg list" where
  "render_result out t = (Inr (), (case write_file out t of Inl _ \<Rightarrow> t | Inr t' \<Rightarrow> t'), [])"

fun op_result :: "ext_op \<Rightarrow> env_res \<Rightarrow> node \<Rightarrow> ((js_err + unit) \<times> node \<times> log_msg list) option" where
  "op_result (OMkdirp p) EnvNone t = Some (mkdir p t)"
| "op_result (ORimraf p) EnvNone t = Some (rmdir p t)"
| "op_result (OUnlink p) EnvNone t = Some (rm p t)"
| "op_result (OBuild st src dst) (EnvBuild err out) t = Some (build_result dst err out t)"
| "op_result (OSpawn cmd args cwd nm v) (EnvProc evs) t =
     (let s = runShellScript v nm evs in
      map_option (\<lambda>r. (r, t, shell_log s)) (settled_result (shell_promise s)))"
| "op_result (ORender url out w h) EnvNone t = Some (render_result out t)"
| "op_result (OConvert args) (EnvConvert err) t = Some (convert_result args err t)"
| "op_result (OWatch ps) (EnvWatch ev p) t = Some (Inr (), t, [Plain (ev @ '' '' @ p)])"
| "op_result _ _ _ = None"

lemma node_callback_result:
  "the (settled_result (node_callback err ())) = (case err of Some e \<Rightarrow> Inl e | None \<Rightarrow> Inr ())"
  by (cases err) (simp_all add: node_callback_def deferred_reject_def deferred_resolve_def)

end
