(* ===== verification/Machine.thy ===== *)
theory Machine
  imports Effects
begin

text \<open>
  A small machine for the promise chains of velveeva.js.  A \<^emph>\<open>fiber\<close> is one chain,
  written in continuation-passing form as a term of \<open>prog\<close>:
  \<^item> \<open>Emit m p\<close> prints \<open>m\<close>;
  \<^item> \<open>Await op h k\<close> starts \<open>op\<close> and waits for it: on success the chain goes on
    with \<open>k\<close>, on rejection with the handler \<open>h\<close> (the next \<open>.then(_, onRejected)\<close>
    or \<open>.done(_, onRejected)\<close>; \<open>Fail\<close> propagates the rejection);
  \<^item> \<open>Spawn q g\<close> calls a promise-returning function without waiting for it: the
    synchronous prefix of \<open>q\<close> runs at once, as a JavaScript call does, then \<open>q\<close>
    goes on as a fiber of its own whose number is passed to \<open>g\<close>;
  \<^item> \<open>Read r h\<close> is synchronous code that reads the file system and may throw
    (\<open>readdirSync\<close>): \<open>r\<close> gives the continuation or the exception, which goes to
    \<open>h\<close>;
  \<^item> \<open>Join ids h k\<close> is \<open>Q.all\<close> over the promises of fibers \<open>ids\<close>: it goes on with
    \<open>k\<close> when all are fulfilled and with \<open>h\<close> as soon as one is rejected;
  \<^item> \<open>Done\<close> and \<open>Fail e\<close> are a fulfilled and a rejected promise, and
    \<open>Waiting oid h k\<close> is a chain suspended on the operation numbered \<open>oid\<close>.
  The world holds the file system, the fibers (numbered by position; fiber 0 is the one
  started first), the pending operations with the fiber waiting for each, the console
  and a trace of the start and finish of every operation.  A scheduler choice either
  advances one fiber by one step (\<open>Tick\<close>) or completes one pending operation with
  data of the outside world (\<open>Complete\<close>).  JavaScript runs the callbacks of one turn
  without interruption; the machine also allows the other fibers to interleave there,
  so every run of the program is a run of the machine.
\<close>

section \<open>Programs and worlds\<close>

datatype prog =
    Done
  | Fail js_err
  | Emit log_msg prog
  | Await ext_op "js_err \<Rightarrow> prog" prog
  | Spawn prog "nat \<Rightarrow> prog"
  | Read "node \<Rightarrow> js_err + prog" "js_err \<Rightarrow> prog"
  | Waiting nat "js_err \<Rightarrow> prog" prog
  | Join "nat list" "js_err \<Rightarrow> prog" prog

datatype event = Start nat ext_op | Finish nat ext_op "js_err + unit"

record world =
  fs :: node
  fibers :: "prog list"
  pending :: "(nat \<times> ext_op \<times> nat) list"
  next_op :: nat
  console :: "log_msg list"
  trace :: "event list"

definition start :: "prog \<Rightarrow> node \<Rightarrow> world" where
  "start p t = \<lparr>fs = t, fibers = [p], pending = [], next_op = 0, console = [], trace = []\<rparr>"

text \<open>Calling without waiting, and printing a list of lines.\<close>

definition fork :: "prog \<Rightarrow> prog \<Rightarrow> prog" where
  "fork q k = Spawn q (\<lambda>_. k)"

definition emits :: "log_msg list \<Rightarrow> prog \<Rightarrow> prog" where
  "emits ms p = foldr Emit ms p"

section \<open>Steps\<close>

definition issue :: "ext_op \<Rightarrow> nat \<Rightarrow> world \<Rightarrow> nat \<times> world" where
  "issue op f w =
     (next_op w,
      w\<lparr>pending := pending w @ [(next_op w, op, f)], next_op := Suc (next_op w),
        trace := trace w @ [Start (next_op w) op]\<rparr>)"

definition add_fiber :: "prog \<Rightarrow> world \<Rightarrow> nat \<times> world" where
  "add_fiber p w = (length (fibers w), w\<lparr>fibers := fibers w @ [p]\<rparr>)"

definition set_fiber :: "nat \<Rightarrow> prog \<Rightarrow> world \<Rightarrow> world" where
  "set_fiber f p w = w\<lparr>fibers := (fibers w)[f := p]\<rparr>"

definition log_line :: "log_msg \<Rightarrow> world \<Rightarrow> world" where
  "log_line m w = w\<lparr>console := console w @ [m]\<rparr>"

text \<open>
  The synchronous prefix of a called function: its lines are printed, its first
  operation is started, the functions it calls in turn are called, and the rest becomes
  a new fiber.
\<close>

fun launch :: "prog \<Rightarrow> world \<Rightarrow> nat \<times> world" where
  "launch (Emit m p) w = launch p (log_line m w)"
| "launch (Await op h k) w =
     (let (oid, w1) = issue op (length (fibers w)) w in add_fiber (Waiting oid h k) w1)"
| "launch p w = add_fiber p w"

fun first_failure :: "nat list \<Rightarrow> prog list \<Rightarrow> js_err option" where
  "first_failure [] ps = None"
| "first_failure (i # is) ps =
     (if i < length ps then (case ps ! i of Fail e \<Rightarrow> Some e | _ \<Rightarrow> first_failure is ps)
      else first_failure is ps)"

fun is_done :: "prog \<Rightarrow> bool" where
  "is_done Done = True"
| "is_done _ = False"

definition all_done :: "nat list \<Rightarrow> prog list \<Rightarrow> bool" where
  "all_done ids ps \<longleftrightarrow> list_all (\<lambda>i. i < length ps \<and> is_done (ps ! i)) ids"

fun tick_prog :: "nat \<Rightarrow> prog \<Rightarrow> world \<Rightarrow> world option" where
  "tick_prog f (Emit m p) w = Some (set_fiber f p (log_line m w))"
| "tick_prog f (Await op h k) w = (let (oid, w1) = issue op f w in Some (set_fiber f (Waiting oid h k) w1))"
| "tick_prog f (Spawn q g) w = (let (i, w1) = launch q w in Some (set_fiber f (g i) w1))"
| "tick_prog f (Read r h) w = Some (set_fiber f (case r (fs w) of Inl e \<Rightarrow> h e | Inr p \<Rightarrow> p) w)"
| "tick_prog f (Join ids h k) w =
     (case first_failure ids (fibers w) of
        Some e \<Rightarrow> Some (set_fiber f (h e) w)
      | None \<Rightarrow> if all_done ids (fibers w) then Some (set_fiber f k w) else None)"
| "tick_prog f _ w = None"

definition tick :: "nat \<Rightarrow> world \<Rightarrow> world option" where
  "tick f w = (if f < length (fibers w) then tick_prog f (fibers w ! f) w else None)"

definition complete :: "nat \<Rightarrow> env_res \<Rightarrow> world \<Rightarrow> world option" where
  "complete oid r w =
     (case map_of (pending w) oid of
        None \<Rightarrow> None
      | Some (op, f) \<Rightarrow>
          (if f < length (fibers w) then
             (case fibers w ! f of
                Waiting oid' h k \<Rightarrow>
                  (if oid' = oid then
                     (case op_result op r (fs w) of
                        None \<Rightarrow> None
                      | Some (res, t', msgs) \<Rightarrow>
                          Some (w\<lparr>fs := t',
                                  fibers := (fibers w)[f := (case res of Inl e \<Rightarrow> h e | Inr _ \<Rightarrow> k)],
                                  pending := AList.delete oid (pending w),
                                  console := console w @ msgs,
                                  trace := trace w @ [Finish oid op res]\<rparr>))
                   else None)
              | _ \<Rightarrow> None)
           else None))"

datatype choice = Tick nat | Complete nat env_res

fun step :: "choice \<Rightarrow> world \<Rightarrow> world option" where
  "step (Tick f) w = tick f w"
| "step (Complete oid r) w = complete oid r w"

fun run :: "choice list \<Rightarrow> world \<Rightarrow> world option" where
  "run [] w = Some w"
| "run (c # cs) w = (case step c w of None \<Rightarrow> None | Some w' \<Rightarrow> run cs w')"

inductive reach :: "world \<Rightarrow> world \<Rightarrow> bool" where
  refl: "reach w w"
| step: "reach w w' \<Longrightarrow> step c w' = Some w'' \<Longrightarrow> reach w w''"

section \<open>Basic facts\<close>

lemma run_append: "run (cs @ ds) w = (case run cs w of None \<Rightarrow> None | Some w' \<Rightarrow> run ds w')"
  by (induction cs arbitrary: w) (auto split: option.splits)

lemma reach_run: "run cs w = Some w' \<Longrightarrow> reach w w'"
proof (induction cs arbitrary: w' rule: rev_induct)
  case Nil
  then show ?case by (simp add: reach.refl)
next
  case (snoc c cs)
  then obtain w1 where "run cs w = Some w1" "step c w1 = Some w'"
    by (auto simp: run_append split: option.splits)
  with snoc.IH show ?case by (blast intro: reach.step)
qed

lemma reach_trans:
  assumes "reach w1 w2" "reach w2 w3"
  shows "reach w1 w3"
  using assms(2,1) by (induction rule: reach.induct) (auto intro: reach.step)

section \<open>A single fiber\<close>

text \<open>
  While a program runs alone (one fiber), a step is the next step of that fiber, and an
  awaited operation completes with some result.
\<close>

lemma step_single_Emit:
  assumes "fibers w = [Emit m p]" "step ch w = Some w'"
  shows "fibers w' = [p] \<and> pending w' = pending w \<and> trace w' = trace w \<and> next_op w' = next_op w"
  using assms by (cases ch) (auto simp: tick_def set_fiber_def log_line_def complete_def split: option.splits if_splits)

lemma step_single_Await:
  assumes "fibers w = [Await op h k]" "step ch w = Some w'"
  shows "fibers w' = [Waiting (next_op w) h k] \<and> pending w' = pending w @ [(next_op w, op, 0)] \<and>
         trace w' = trace w @ [Start (next_op w) op] \<and> next_op w' = Suc (next_op w)"
  using assms by (cases ch) (auto simp: tick_def set_fiber_def issue_def complete_def split: option.splits if_splits)

lemma step_single_Waiting:
  assumes "fibers w = [Waiting oid h k]" "pending w = [(oid, op, 0)]" "step ch w = Some w'"
  shows "\<exists>res. fibers w' = [case res of Inl e \<Rightarrow> h e | Inr _ \<Rightarrow> k] \<and> pending w' = [] \<and>
         trace w' = trace w @ [Finish oid op res] \<and> next_op w' = next_op w"
  using assms by (cases ch) (auto simp: tick_def complete_def split: option.splits if_splits)

lemma step_single_Fail:
  assumes "fibers w = [Fail e]" "pending w = []"
  shows "step ch w = None"
  using assms by (cases ch) (auto simp: tick_def complete_def)

end
