(* ===== verification/Confine.thy ===== *)
theory Confine
  imports Machine
begin

text \<open>
  Which operations a program may start, and the confinement of a run: a set of
  operations that covers everything the fibers may start and everything pending is
  never left.  This is the basis of the statements that a stage never runs.
\<close>

section \<open>The operations a program may start\<close>

text \<open>
  \<open>may_start p op\<close>: some continuation of \<open>p\<close>, whatever the outcomes of its
  operations, reads and joins, starts \<open>op\<close>.  A set of operations that covers what
  every fiber may start and every pending operation is never left by a run: the basis
  of the statements that a stage never runs.
\<close>

inductive may_start :: "prog \<Rightarrow> ext_op \<Rightarrow> bool" where
  await_here: "may_start (Await op h k) op"
| await_ok: "may_start k op \<Longrightarrow> may_start (Await op' h k) op"
| await_err: "may_start (h e) op \<Longrightarrow> may_start (Await op' h k) op"
| emit: "may_start p op \<Longrightarrow> may_start (Emit m p) op"
| spawn_call: "may_start q op \<Longrightarrow> may_start (Spawn q g) op"
| spawn_cont: "may_start (g i) op \<Longrightarrow> may_start (Spawn q g) op"
| read_ok: "r t = Inr p \<Longrightarrow> may_start p op \<Longrightarrow> may_start (Read r h) op"
| read_err: "may_start (h e) op \<Longrightarrow> may_start (Read r h) op"
| wait_ok: "may_start k op \<Longrightarrow> may_start (Waiting oid h k) op"
| wait_err: "may_start (h e) op \<Longrightarrow> may_start (Waiting oid h k) op"
| join_ok: "may_start k op \<Longrightarrow> may_start (Join ids h k) op"
| join_err: "may_start (h e) op \<Longrightarrow> may_start (Join ids h k) op"

fun ev_op :: "event \<Rightarrow> ext_op" where
  "ev_op (Start oid op) = op"
| "ev_op (Finish oid op r) = op"

definition confined :: "(ext_op \<Rightarrow> bool) \<Rightarrow> world \<Rightarrow> bool" where
  "confined L w \<longleftrightarrow>
     (\<forall>p\<in>set (fibers w). \<forall>op. may_start p op \<longrightarrow> L op) \<and>
     (\<forall>x\<in>set (pending w). L (fst (snd x)))"

text \<open>
  \<open>confined_from L n w\<close>: the same for the fibers from number \<open>n\<close> on; the fibers
  before \<open>n\<close> are left free, so that a chain that waits for others can be followed on
  its own.
\<close>

definition confined_from :: "(ext_op \<Rightarrow> bool) \<Rightarrow> nat \<Rightarrow> world \<Rightarrow> bool" where
  "confined_from L n w \<longleftrightarrow>
     (\<forall>g<length (fibers w). n \<le> g \<longrightarrow> (\<forall>op. may_start (fibers w ! g) op \<longrightarrow> L op)) \<and>
     (\<forall>x\<in>set (pending w). L (fst (snd x)))"

section \<open>Confinement\<close>

inductive_simps may_start_Done [simp]: "may_start Done op"
inductive_simps may_start_Fail [simp]: "may_start (Fail e) op"
inductive_simps may_start_Emit [simp]: "may_start (Emit m p) op"
inductive_simps may_start_Await: "may_start (Await op' h k) op"
inductive_simps may_start_Spawn: "may_start (Spawn q g) op"
inductive_simps may_start_Read: "may_start (Read r h) op"
inductive_simps may_start_Waiting: "may_start (Waiting oid h k) op"
inductive_simps may_start_Join: "may_start (Join ids h k) op"

lemmas may_start_simps [machine_simps] =
  may_start_Await may_start_Spawn may_start_Read may_start_Waiting may_start_Join

lemma may_start_emits [simp]: "may_start (emits ms p) op \<longleftrightarrow> may_start p op"
  by (induction ms) (simp_all add: emits_def)

lemma may_start_fork [machine_simps]: "may_start (fork q k) op \<longleftrightarrow> may_start q op \<or> may_start k op"
  by (simp add: fork_def may_start_Spawn)

lemma confined_iff_from: "confined L w \<longleftrightarrow> confined_from L 0 w"
  unfolding confined_def confined_from_def by (metis in_set_conv_nth less_eq_nat.simps(1))

lemma confined_from_set_fiber:
  assumes "confined_from L n w" "f < length (fibers w)"
    and "f < n \<or> (\<forall>op. may_start p op \<longrightarrow> may_start (fibers w ! f) op)"
  shows "confined_from L n (set_fiber f p w)"
  using assms by (auto simp: confined_from_def set_fiber_def nth_list_update)

text \<open>
  Starting a called function keeps the fibers and pending operations within \<open>L\<close>
  when the function may only start operations of \<open>L\<close>; it only appends fibers and
  start events.
\<close>

lemma launch_confined_from:
  "launch q w = (i, w1) \<Longrightarrow> confined_from L n w \<Longrightarrow> n \<le> length (fibers w) \<Longrightarrow>
   (\<forall>op. may_start q op \<longrightarrow> L op) \<Longrightarrow>
   confined_from L n w1 \<and> (\<exists>new. trace w1 = trace w @ new \<and> (\<forall>ev\<in>set new. L (ev_op ev))) \<and>
   (\<exists>more. fibers w1 = fibers w @ more) \<and> fs w1 = fs w"
proof (induction q w arbitrary: i w1 rule: launch.induct)
  case (1 m p w)
  have c: "confined_from L n (log_line m w)" using "1.prems"(2) by (simp add: confined_from_def log_line_def)
  have n: "n \<le> length (fibers (log_line m w))" using "1.prems"(3) by (simp add: log_line_def)
  have l: "\<forall>op. may_start p op \<longrightarrow> L op" using "1.prems"(4) by simp
  from "1.prems"(1) have "launch p (log_line m w) = (i, w1)" by simp
  from "1.IH" [OF this c n l] show ?case by (simp add: log_line_def)
next
  case (2 op h k w)
  from "2.prems"(1) have
    fib: "fibers w1 = fibers w @ [Waiting (next_op w) h k]" and
    pend: "pending w1 = pending w @ [(next_op w, op, length (fibers w))]" and
    tr: "trace w1 = trace w @ [Start (next_op w) op]" and
    t: "fs w1 = fs w"
    by (auto simp: issue_def add_fiber_def)
  have Lop: "L op" and Lh: "\<forall>e op'. may_start (h e) op' \<longrightarrow> L op'" and Lk: "\<forall>op'. may_start k op' \<longrightarrow> L op'"
    using "2.prems"(4) by (auto simp: may_start_simps)
  have "\<forall>op'. may_start (Waiting (next_op w) h k) op' \<longrightarrow> L op'"
    using Lh Lk by (auto simp: may_start_simps)
  with "2.prems"(2) Lop fib pend have "confined_from L n w1"
    by (auto simp: confined_from_def nth_append less_Suc_eq)
  with tr Lop fib t show ?case by auto
qed (auto simp: add_fiber_def confined_from_def nth_append less_Suc_eq)

lemma tick_confined_from:
  assumes "tick f w = Some w'" "confined_from L n w" "n \<le> f"
  shows "confined_from L n w' \<and> (\<exists>new. trace w' = trace w @ new \<and> (\<forall>ev\<in>set new. L (ev_op ev)))"
proof -
  from assms(1) have f: "f < length (fibers w)" and t: "tick_prog f (fibers w ! f) w = Some w'"
    by (auto simp: tick_def split: if_splits)
  have L0: "\<And>op. may_start (fibers w ! f) op \<Longrightarrow> L op"
    using assms(2,3) f by (auto simp: confined_from_def)
  show ?thesis
  proof (cases "fibers w ! f")
    case (Emit m p)
    have "confined_from L n (log_line m w)" using assms(2) by (simp add: confined_from_def log_line_def)
    then have "confined_from L n (set_fiber f p (log_line m w))"
      by (rule confined_from_set_fiber) (use f Emit in \<open>simp_all add: log_line_def\<close>)
    with t Emit show ?thesis by (auto simp: set_fiber_def log_line_def)
  next
    case (Await op h k)
    let ?w1 = "snd (issue op f w)"
    have "confined_from L n ?w1"
      using assms(2) L0 Await by (auto simp: confined_from_def issue_def may_start_simps)
    then have "confined_from L n (set_fiber f (Waiting (next_op w) h k) ?w1)"
      by (rule confined_from_set_fiber) (use f Await in \<open>simp_all add: issue_def may_start_simps\<close>)
    with t Await L0 show ?thesis
      by (auto simp: set_fiber_def issue_def may_start_simps)
  next
    case (Spawn q g)
    obtain i w1 where l: "launch q w = (i, w1)" by fastforce
    have nl: "n \<le> length (fibers w)" using assms(3) f by simp
    from launch_confined_from [OF l assms(2) nl] L0 Spawn
    have c1: "confined_from L n w1" and tr: "\<exists>new. trace w1 = trace w @ new \<and> (\<forall>ev\<in>set new. L (ev_op ev))"
      and more: "\<exists>more. fibers w1 = fibers w @ more"
      by (auto simp: may_start_simps)
    from more f have f1: "f < length (fibers w1)" "fibers w1 ! f = fibers w ! f"
      by (auto simp: nth_append)
    have "confined_from L n (set_fiber f (g i) w1)"
      by (rule confined_from_set_fiber [OF c1 f1(1)]) (simp add: f1(2) Spawn may_start_simps; blast)
    with t Spawn l tr show ?thesis by (auto simp: set_fiber_def)
  next
    case (Read r h)
    have "confined_from L n (set_fiber f (case r (fs w) of Inl e \<Rightarrow> h e | Inr p \<Rightarrow> p) w)"
      by (rule confined_from_set_fiber [OF assms(2) f])
         (auto simp: Read may_start_simps split: sum.splits)
    with t Read show ?thesis by (auto simp: set_fiber_def)
  next
    case (Join ids h k)
    have ce: "confined_from L n (set_fiber f (h e) w)" for e
      by (rule confined_from_set_fiber [OF assms(2) f]) (auto simp: Join may_start_simps)
    have ck: "confined_from L n (set_fiber f k w)"
      by (rule confined_from_set_fiber [OF assms(2) f]) (auto simp: Join may_start_simps)
    from t Join ce ck show ?thesis
      by (auto simp: set_fiber_def split: option.splits if_splits)
  qed (use t in simp_all)
qed

lemma complete_confined_from:
  assumes "complete oid r w = Some w'" "confined_from L n w"
  shows "confined_from L n w' \<and> (\<exists>new. trace w' = trace w @ new \<and> (\<forall>ev\<in>set new. L (ev_op ev)))"
proof -
  from assms(1) obtain op f h k res t' msgs where
    pend: "map_of (pending w) oid = Some (op, f)" and f: "f < length (fibers w)"
    and fib: "fibers w ! f = Waiting oid h k" and opr: "op_result op r (fs w) = Some (res, t', msgs)"
    and w': "w' = w\<lparr>fs := t', fibers := (fibers w)[f := (case res of Inl e \<Rightarrow> h e | Inr _ \<Rightarrow> k)],
                     pending := AList.delete oid (pending w), console := console w @ msgs,
                     trace := trace w @ [Finish oid op res]\<rparr>"
    by (auto simp: complete_def split: option.splits prog.splits if_splits)
  from pend have "(oid, op, f) \<in> set (pending w)" by (rule map_of_SomeD)
  with assms(2) have Lop: "L op" by (auto simp: confined_from_def)
  have "confined_from L n (set_fiber f (case res of Inl e \<Rightarrow> h e | Inr _ \<Rightarrow> k) w)"
    by (rule confined_from_set_fiber [OF assms(2) f]) (auto simp: fib may_start_simps split: sum.splits)
  moreover have "\<forall>x\<in>set (AList.delete oid (pending w)). L (fst (snd x))"
    using assms(2) set_delete_subset [of oid "pending w"] by (auto simp: confined_from_def)
  ultimately show ?thesis using Lop w' by (simp add: confined_from_def set_fiber_def)
qed

lemma step_confined_from:
  assumes "step c w = Some w'" "confined_from L n w" "\<And>f. c = Tick f \<Longrightarrow> n \<le> f"
  shows "confined_from L n w' \<and> (\<exists>new. trace w' = trace w @ new \<and> (\<forall>ev\<in>set new. L (ev_op ev)))"
  using assms by (cases c) (auto dest: tick_confined_from complete_confined_from)

lemma step_confined:
  assumes "step c w = Some w'" "confined L w"
  shows "confined L w' \<and> (\<exists>new. trace w' = trace w @ new \<and> (\<forall>ev\<in>set new. L (ev_op ev)))"
  using step_confined_from [of c w w' L 0] assms by (simp add: confined_iff_from)

lemma reach_confined:
  assumes "reach w w'" "confined L w"
  shows "confined L w' \<and> (\<exists>new. trace w' = trace w @ new \<and> (\<forall>ev\<in>set new. L (ev_op ev)))"
  using assms
proof (induction rule: reach.induct)
  case (step w1 w2 c w3)
  then obtain new where c1: "confined L w2" and tr: "trace w2 = trace w1 @ new" and n: "\<forall>ev\<in>set new. L (ev_op ev)"
    by blast
  from step_confined [OF step.hyps(2) c1] obtain new' where
    "confined L w3" "trace w3 = trace w2 @ new'" "\<forall>ev\<in>set new'. L (ev_op ev)"
    by blast
  with tr n show ?case by auto
qed auto

text \<open>Every operation a run from \<open>start p t\<close> starts is one \<open>p\<close> may start.\<close>

lemma reach_start_may_start:
  assumes "reach (start p t) w" "ev \<in> set (trace w)"
  shows "may_start p (ev_op ev)"
proof -
  have "confined (may_start p) (start p t)" by (simp add: confined_def start_def)
  from reach_confined [OF assms(1) this] assms(2) show ?thesis by (auto simp: start_def)
qed

end
