(* ===== verification/Progress.thy ===== *)
theory Progress
  imports Machine
begin

text \<open>
  Runs of one fiber on its own (\<open>ticks\<close>), which only start operations, and what a
  fiber may become (\<open>fiber_next\<close>), with the rejections a program can end in.
\<close>

section \<open>Definitions\<close>

text \<open>
  \<open>ticks f w w'\<close>: \<open>w'\<close> is reached from \<open>w\<close> by steps of fiber \<open>f\<close> alone, with no
  operation completing in between; \<open>started\<close> is the trace of starting a list of
  pending operations.
\<close>

inductive ticks :: "nat \<Rightarrow> world \<Rightarrow> world \<Rightarrow> bool" for f where
  refl: "ticks f w w"
| step: "tick f w = Some w1 \<Longrightarrow> ticks f w1 w2 \<Longrightarrow> ticks f w w2"

definition started :: "(nat \<times> ext_op \<times> nat) list \<Rightarrow> event list" where
  "started ps = map (\<lambda>(oid, op, g). Start oid op) ps"

text \<open>
  \<open>fiber_next p q\<close>: one step of a fiber turns its program \<open>p\<close> into \<open>q\<close>, whatever
  the operation numbers, results and reads.  \<open>may_fail p e\<close>: some continuation of
  \<open>p\<close> on its own fiber rejects with \<open>e\<close>, the rejections a caller of \<open>p\<close> can see.
\<close>

inductive fiber_next :: "prog \<Rightarrow> prog \<Rightarrow> bool" where
  emit: "fiber_next (Emit m p) p"
| await: "fiber_next (Await op h k) (Waiting oid h k)"
| wait_ok: "fiber_next (Waiting oid h k) k"
| wait_err: "fiber_next (Waiting oid h k) (h e)"
| spawn: "fiber_next (Spawn q g) (g i)"
| read_ok: "r t = Inr p \<Longrightarrow> fiber_next (Read r h) p"
| read_err: "fiber_next (Read r h) (h e)"
| join_ok: "fiber_next (Join ids h k) k"
| join_err: "fiber_next (Join ids h k) (h e)"

inductive may_fail :: "prog \<Rightarrow> js_err \<Rightarrow> bool" where
  fail: "may_fail (Fail e) e"
| cont: "fiber_next p q \<Longrightarrow> may_fail q e \<Longrightarrow> may_fail p e"

section \<open>Runs of one fiber\<close>

text \<open>
  Steps of one fiber only start operations: they never complete one, never change the
  file system, and keep the other fibers' positions.
\<close>

lemma ticks_trans: "ticks f w1 w2 \<Longrightarrow> ticks f w2 w3 \<Longrightarrow> ticks f w1 w3"
  by (induction rule: ticks.induct) (auto intro: ticks.step)

lemma ticks_reach: "ticks f w w' \<Longrightarrow> reach w w'"
proof (induction rule: ticks.induct)
  case (step w w1 w2)
  have "reach w w1" using step.hyps(1) reach.step [OF reach.refl, of "Tick f"] by simp
  then show ?case using step.IH reach_trans by blast
qed (rule reach.refl)

lemma launch_effect:
  "launch q w = (i, w1) \<Longrightarrow>
   fs w1 = fs w \<and> (\<exists>more. fibers w1 = fibers w @ more) \<and>
   (\<exists>added. pending w1 = pending w @ added \<and> trace w1 = trace w @ started added)"
proof (induction q w arbitrary: i w1 rule: launch.induct)
  case (1 m p w)
  then show ?case by (fastforce simp: log_line_def)
next
  case (2 op h k w)
  then show ?case
    by (auto simp: issue_def add_fiber_def started_def intro!: exI [of _ "[(next_op w, op, length (fibers w))]"])
qed (auto simp: add_fiber_def started_def intro: exI [of _ "[]"])

lemma started_simps [simp]:
  "started [] = []" "started (xs @ ys) = started xs @ started ys"
  by (simp_all add: started_def)

lemma tick_effect:
  assumes "tick f w = Some w'"
  shows "fs w' = fs w \<and> f < length (fibers w) \<and> length (fibers w) \<le> length (fibers w') \<and>
         (\<exists>added. pending w' = pending w @ added \<and> trace w' = trace w @ started added)"
proof -
  from assms have f: "f < length (fibers w)" and t: "tick_prog f (fibers w ! f) w = Some w'"
    by (auto simp: tick_def split: if_splits)
  show ?thesis
  proof (cases "fibers w ! f")
    case (Emit m p)
    with t f show ?thesis by (auto simp: set_fiber_def log_line_def intro: exI [of _ "[]"])
  next
    case (Await op h k)
    with t f show ?thesis
      by (auto simp: set_fiber_def issue_def started_def intro!: exI [of _ "[(next_op w, op, f)]"])
  next
    case (Spawn q g)
    obtain i w1 where l: "launch q w = (i, w1)" by fastforce
    with t Spawn have w': "w' = set_fiber f (g i) w1" by simp
    from launch_effect [OF l] f w' show ?thesis by (auto simp: set_fiber_def)
  next
    case (Read r h)
    with t f show ?thesis by (auto simp: set_fiber_def intro: exI [of _ "[]"])
  next
    case (Join ids h k)
    with t f show ?thesis
      by (auto simp: set_fiber_def split: option.splits if_splits intro: exI [of _ "[]"])
  qed (use t in simp_all)
qed

lemma ticks_effect:
  "ticks f w w' \<Longrightarrow>
   fs w' = fs w \<and> length (fibers w) \<le> length (fibers w') \<and>
   (\<exists>added. pending w' = pending w @ added \<and> trace w' = trace w @ started added)"
proof (induction rule: ticks.induct)
  case (step w w1 w2)
  from tick_effect [OF step.hyps(1)] step.IH show ?case
    by auto
qed (auto intro: exI [of _ "[]"])

lemma ticks_one: "tick f w = Some w1 \<Longrightarrow> ticks f w w1"
  by (blast intro: ticks.step ticks.refl)

lemma ticks_emits:
  "f < length (fibers w) \<Longrightarrow> fibers w ! f = emits ms p \<Longrightarrow>
   \<exists>w'. ticks f w w' \<and> f < length (fibers w') \<and> fibers w' ! f = p \<and>
        console w' = console w @ ms \<and> pending w' = pending w"
proof (induction ms arbitrary: w)
  case Nil
  then show ?case by (auto simp: emits_def intro: ticks.refl)
next
  case (Cons m ms)
  let ?w1 = "set_fiber f (emits ms p) (log_line m w)"
  have t: "tick f w = Some ?w1" using Cons.prems by (simp add: tick_def emits_def)
  have "f < length (fibers ?w1)" "fibers ?w1 ! f = emits ms p"
    using Cons.prems by (simp_all add: set_fiber_def log_line_def)
  from Cons.IH [OF this] obtain w' where
    "ticks f ?w1 w'" "f < length (fibers w')" "fibers w' ! f = p" "console w' = console ?w1 @ ms"
    "pending w' = pending ?w1" by blast
  with t show ?case by (auto simp: set_fiber_def log_line_def intro: ticks.step)
qed

lemma launch_emits_Await:
  assumes "launch (emits ms (Await op h k)) w = (i, w1)"
  shows "i = length (fibers w) \<and> fibers w1 = fibers w @ [Waiting (next_op w) h k] \<and>
         pending w1 = pending w @ [(next_op w, op, length (fibers w))] \<and> console w1 = console w @ ms \<and>
         next_op w1 = Suc (next_op w) \<and> fs w1 = fs w"
  using assms
proof (induction ms arbitrary: w)
  case (Cons m ms)
  from Cons.prems have "launch (emits ms (Await op h k)) (log_line m w) = (i, w1)" by (simp add: emits_def)
  from Cons.IH [OF this] show ?case by (simp add: log_line_def)
qed (auto simp: emits_def issue_def add_fiber_def)

lemma ticks_fork_Await:
  assumes "f < length (fibers w)" "fibers w ! f = fork (Await op h k') k"
  shows "\<exists>w'. ticks f w w' \<and> f < length (fibers w') \<and> fibers w' ! f = k \<and>
              console w' = console w \<and> (\<exists>g. (next_op w, op, g) \<in> set (pending w'))"
proof -
  obtain i w1 where l: "launch (emits [] (Await op h k')) w = (i, w1)" by fastforce
  then have "launch (Await op h k') w = (i, w1)" by (simp add: emits_def)
  with assms have "tick f w = Some (set_fiber f k w1)"
    by (simp add: tick_def fork_def)
  moreover from launch_emits_Await [OF l] assms
  have "f < length (fibers (set_fiber f k w1)) \<and> fibers (set_fiber f k w1) ! f = k \<and>
        console (set_fiber f k w1) = console w \<and> (\<exists>g. (next_op w, op, g) \<in> set (pending (set_fiber f k w1)))"
    by (auto simp: set_fiber_def)
  ultimately show ?thesis by (blast intro: ticks_one)
qed

lemma tick_Read:
  assumes "f < length (fibers w)" "fibers w ! f = Read r h"
  shows "\<exists>w'. ticks f w w' \<and> f < length (fibers w') \<and>
              fibers w' ! f = (case r (fs w) of Inl e \<Rightarrow> h e | Inr p \<Rightarrow> p) \<and>
              console w' = console w \<and> pending w' = pending w \<and> fs w' = fs w"
  using assms by (auto simp: tick_def set_fiber_def intro!: ticks_one)

lemma ticks_length: "ticks f w w' \<Longrightarrow> f < length (fibers w) \<Longrightarrow> f < length (fibers w')"
  using ticks_effect by fastforce

lemma ticks_pending_mono: "ticks f w w' \<Longrightarrow> x \<in> set (pending w) \<Longrightarrow> x \<in> set (pending w')"
  using ticks_effect by fastforce

section \<open>What a fiber may become\<close>

text \<open>
  A step leaves every fiber in place or advances it by \<open>fiber_next\<close>; so the first
  fiber of a run started from \<open>p\<close> is always a continuation of \<open>p\<close>, and it can only
  reject with an error \<open>p\<close> may fail with.
\<close>

lemma tick_fiber:
  assumes "tick f w = Some w'" "g < length (fibers w)"
  shows "g < length (fibers w') \<and> (fibers w' ! g = fibers w ! g \<or> fiber_next (fibers w ! g) (fibers w' ! g))"
proof -
  from assms(1) have f: "f < length (fibers w)" and t: "tick_prog f (fibers w ! f) w = Some w'"
    by (auto simp: tick_def split: if_splits)
  show ?thesis
  proof (cases "fibers w ! f")
    case (Emit m p)
    with t f assms(2) show ?thesis by (auto simp: set_fiber_def log_line_def nth_list_update fiber_next.intros)
  next
    case (Await op h k)
    with t f assms(2) show ?thesis by (auto simp: set_fiber_def issue_def nth_list_update fiber_next.intros)
  next
    case (Spawn q g')
    obtain i w1 where l: "launch q w = (i, w1)" by fastforce
    with t Spawn have w': "w' = set_fiber f (g' i) w1" by simp
    from launch_effect [OF l] obtain more where "fibers w1 = fibers w @ more" by blast
    with w' f assms(2) Spawn show ?thesis
      by (auto simp: set_fiber_def nth_list_update nth_append fiber_next.intros)
  next
    case (Read r h)
    with t f assms(2) show ?thesis
      by (auto simp: set_fiber_def nth_list_update fiber_next.intros split: sum.splits)
  next
    case (Join ids h k)
    with t f assms(2) show ?thesis
      by (auto simp: set_fiber_def nth_list_update fiber_next.intros split: option.splits if_splits)
  qed (use t in simp_all)
qed

lemma complete_fiber:
  assumes "complete oid r w = Some w'" "g < length (fibers w)"
  shows "g < length (fibers w') \<and> (fibers w' ! g = fibers w ! g \<or> fiber_next (fibers w ! g) (fibers w' ! g))"
  using assms
  by (auto simp: complete_def nth_list_update fiber_next.intros
           split: option.splits prog.splits if_splits sum.splits)

lemma step_fiber:
  "step c w = Some w' \<Longrightarrow> g < length (fibers w) \<Longrightarrow>
   g < length (fibers w') \<and> fiber_next\<^sup>*\<^sup>* (fibers w ! g) (fibers w' ! g)"
  by (cases c) (auto dest: tick_fiber complete_fiber)

lemma reach_fiber:
  assumes "reach w w'" "g < length (fibers w)"
  shows "g < length (fibers w') \<and> fiber_next\<^sup>*\<^sup>* (fibers w ! g) (fibers w' ! g)"
  using assms
proof (induction rule: reach.induct)
  case (step w1 w2 c w3)
  then show ?case by (blast dest: step_fiber intro: rtranclp_trans)
qed simp

lemma may_fail_next: "fiber_next\<^sup>*\<^sup>* p q \<Longrightarrow> may_fail q e \<Longrightarrow> may_fail p e"
  by (induction rule: rtranclp_induct) (auto intro: may_fail.cont)

lemma reach_start_fail:
  "reach (start p t) w \<Longrightarrow> fibers w ! 0 = Fail e \<Longrightarrow> may_fail p e"
  using reach_fiber [of "start p t" w 0] may_fail_next may_fail.fail
  by (fastforce simp: start_def)

inductive_simps fiber_next_Done: "fiber_next Done q"
inductive_simps fiber_next_Fail: "fiber_next (Fail e) q"
inductive_simps fiber_next_Emit: "fiber_next (Emit m p) q"
inductive_simps fiber_next_Await: "fiber_next (Await op h k) q"
inductive_simps fiber_next_Waiting: "fiber_next (Waiting oid h k) q"
inductive_simps fiber_next_Spawn: "fiber_next (Spawn q' g) q"
inductive_simps fiber_next_Read: "fiber_next (Read r h) q"
inductive_simps fiber_next_Join: "fiber_next (Join ids h k) q"

lemmas fiber_next_simps = fiber_next_Done fiber_next_Fail fiber_next_Emit fiber_next_Await
  fiber_next_Waiting fiber_next_Spawn fiber_next_Read fiber_next_Join

inductive_simps may_fail_simps: "may_fail p e"

lemma may_fail_Done [simp]: "\<not> may_fail Done e"
  by (subst may_fail_simps) (simp add: fiber_next_simps)

lemma may_fail_Fail [simp]: "may_fail (Fail e') e \<longleftrightarrow> e = e'"
  by (subst may_fail_simps) (auto simp: fiber_next_simps)

lemma may_fail_Emit [simp]: "may_fail (Emit m p) e \<longleftrightarrow> may_fail p e"
  by (subst may_fail_simps) (auto simp: fiber_next_simps)

lemma may_fail_Await [simp]: "may_fail (Await op h k) e \<longleftrightarrow> may_fail k e \<or> (\<exists>e'. may_fail (h e') e)"
proof -
  have "may_fail (Waiting oid h k) e \<longleftrightarrow> may_fail k e \<or> (\<exists>e'. may_fail (h e') e)" for oid
    by (subst may_fail_simps) (auto simp: fiber_next_simps)
  then show ?thesis by (subst may_fail_simps) (auto simp: fiber_next_simps)
qed

lemma may_fail_Spawn [simp]: "may_fail (Spawn q g) e \<longleftrightarrow> (\<exists>i. may_fail (g i) e)"
  by (subst may_fail_simps) (auto simp: fiber_next_simps)

lemma may_fail_emits [simp]: "may_fail (emits ms p) e \<longleftrightarrow> may_fail p e"
  by (induction ms) (simp_all add: emits_def)

lemma may_fail_fork [simp]: "may_fail (fork q k) e \<longleftrightarrow> may_fail k e"
  by (simp add: fork_def)

section \<open>Fibers that do not move\<close>

text \<open>
  A step of one fiber leaves the others in place; a completion only moves a waiting
  fiber; a finished fiber stays finished.
\<close>

lemma tick_other:
  assumes "tick f w = Some w'" "g \<noteq> f" "g < length (fibers w)"
  shows "fibers w' ! g = fibers w ! g"
proof -
  from assms(1) have f: "f < length (fibers w)" and t: "tick_prog f (fibers w ! f) w = Some w'"
    by (auto simp: tick_def split: if_splits)
  show ?thesis
  proof (cases "fibers w ! f")
    case (Spawn q g')
    obtain i w1 where l: "launch q w = (i, w1)" by fastforce
    with t Spawn have w': "w' = set_fiber f (g' i) w1" by simp
    from launch_effect [OF l] obtain more where "fibers w1 = fibers w @ more" by blast
    with w' assms(2,3) show ?thesis by (simp add: set_fiber_def nth_append)
  qed (use t assms(2) in \<open>auto simp: set_fiber_def log_line_def issue_def split: option.splits if_splits\<close>)
qed

lemma complete_other:
  assumes "complete oid r w = Some w'" "g < length (fibers w)" "\<And>oid' h k. fibers w ! g \<noteq> Waiting oid' h k"
  shows "fibers w' ! g = fibers w ! g"
proof -
  from assms(1) obtain op f h k res t' msgs where
    fib: "fibers w ! f = Waiting oid h k" and
    w': "w' = w\<lparr>fs := t', fibers := (fibers w)[f := (case res of Inl e \<Rightarrow> h e | Inr _ \<Rightarrow> k)],
                     pending := AList.delete oid (pending w), console := console w @ msgs,
                     trace := trace w @ [Finish oid op res]\<rparr>"
    by (auto simp: complete_def split: option.splits prog.splits if_splits)
  from fib assms(3) have "f \<noteq> g" by metis
  with w' show ?thesis by simp
qed

lemma fiber_next_star_Done: "fiber_next\<^sup>*\<^sup>* p q \<Longrightarrow> p = Done \<Longrightarrow> q = Done"
  by (induction rule: rtranclp_induct) (auto simp: fiber_next_simps)

lemma step_keeps_Done:
  assumes "step c w = Some w'" "g < length (fibers w)" "fibers w ! g = Done"
  shows "g < length (fibers w') \<and> fibers w' ! g = Done"
  using step_fiber [OF assms(1,2)] assms(3) fiber_next_star_Done by auto

lemma step_keeps_unmoved:
  assumes "step ch w = Some w'" "g < length (fibers w)" "ch \<noteq> Tick g"
    and "\<And>oid h k. fibers w ! g \<noteq> Waiting oid h k"
  shows "g < length (fibers w') \<and> fibers w' ! g = fibers w ! g"
proof (cases ch)
  case (Tick f)
  with assms have "g \<noteq> f" by auto
  with Tick assms(1,2) show ?thesis using tick_other [of f w w' g] tick_effect [of f w w'] by auto
next
  case (Complete oid r)
  with assms show ?thesis using complete_other [of oid r w w' g] step_fiber [OF assms(1,2)] by auto
qed

end
