(* ===== verification/Config.thy ===== *)
theory Config
  imports Paths
begin

text \<open>
  The configuration built by the constructor \<open>Velveeva(configRecipe)\<close>
  (velveeva.js, lines 3--49): the object \<open>CONFIG\<close> with its path settings
  \<open>CONFIG.MAIN\<close>, the working directory \<open>CONFIG.ROOT_DIR\<close>, the feature flags
  \<open>CONFIG.FLAGS\<close> (all false until the caller sets them through
  \<open>velveeva.config\<close>) and the optional screenshot sizes \<open>CONFIG.SS\<close>.  A recipe
  key is a string or absent; JavaScript's \<open>||\<close> replaces an absent key and the
  empty string (both falsy) by the default.  Reading \<open>configRecipe.MAIN.globals_dir\<close>
  when \<open>MAIN\<close> is absent throws a \<open>TypeError\<close> out of the constructor.
\<close>

section \<open>Recipe and configuration\<close>

record main_recipe =
  globals_dir :: "string option"
  output_dir :: "string option"
  partials_dir :: "string option"
  source_dir :: "string option"
  temp_dir :: "string option"
  templates_dir :: "string option"

text \<open>A size specification of the screenshot stage: \<open>{width, height, name}\<close>.\<close>

record size_spec =
  width :: nat
  height :: nat
  name :: string

record sizes =
  full :: size_spec
  thumb :: size_spec

record recipe =
  recipe_MAIN :: "main_recipe option"
  recipe_SS :: "sizes option"

record main_cfg =
  ASSETS :: string
  DEST :: string
  PARTIALS :: string
  SOURCE :: string
  TEMP :: string
  TEMPLATES :: string

record flags =
  VERBOSE :: bool
  DEV :: bool
  RELINK :: bool
  WATCH :: bool
  PACKAGE :: bool
  SCREENSHOTS :: bool
  CLEAN :: bool
  VEEV2REL :: bool

record config =
  MAIN :: main_cfg
  ROOT_DIR :: path
  FLAGS :: flags
  SS :: "sizes option"

section \<open>The constructor\<close>

definition default_flags :: flags where
  "default_flags =
     \<lparr>VERBOSE = False, DEV = False, RELINK = False, WATCH = False,
      PACKAGE = False, SCREENSHOTS = False, CLEAN = False, VEEV2REL = False\<rparr>"

text \<open>\<open>value || default\<close> for a string-valued key.\<close>

fun js_or :: "string option \<Rightarrow> string \<Rightarrow> string" where
  "js_or None d = d"
| "js_or (Some s) d = (if s = [] then d else s)"

definition empty_recipe :: recipe where
  "empty_recipe = \<lparr>recipe_MAIN = None, recipe_SS = None\<rparr>"

definition Velveeva :: "recipe option \<Rightarrow> path \<Rightarrow> js_err + config" where
  "Velveeva r cwd =
     (let rc = (case r of None \<Rightarrow> empty_recipe | Some x \<Rightarrow> x) in
      case recipe_MAIN rc of
        None \<Rightarrow> Inl (ErrType ''Cannot read property 'globals_dir' of undefined'')
      | Some m \<Rightarrow> Inr
          \<lparr>MAIN = \<lparr>ASSETS = js_or (globals_dir m) ''./global_includes'',
                   DEST = js_or (output_dir m) ''./build'',
                   PARTIALS = js_or (partials_dir m) ''./partials/sections'',
                   SOURCE = js_or (source_dir m) ''./src'',
                   TEMP = js_or (temp_dir m) ''./temp'',
                   TEMPLATES = js_or (templates_dir m) ''./partials/full_templates''\<rparr>,
           ROOT_DIR = cwd, FLAGS = default_flags, SS = recipe_SS rc\<rparr>)"

text \<open>The screenshot sizes of lines 259--262: \<open>CONFIG.SS\<close> or the defaults.\<close>

definition default_sizes :: sizes where
  "default_sizes =
     \<lparr>full = \<lparr>width = 1024, height = 768, name = ''-full.jpg''\<rparr>,
      thumb = \<lparr>width = 200, height = 150, name = ''-thumb.jpg''\<rparr>\<rparr>"

definition screenshot_sizes :: "config \<Rightarrow> sizes" where
  "screenshot_sizes c = (case SS c of None \<Rightarrow> default_sizes | Some s \<Rightarrow> s)"

section \<open>Derived paths\<close>

text \<open>\<open>path.join(CONFIG.ROOT_DIR, CONFIG.MAIN.X)\<close>, as used by \<open>bake\<close> and the stages.\<close>

definition temp_path :: "config \<Rightarrow> path" where
  "temp_path c = path_join (ROOT_DIR c) (TEMP (MAIN c))"

definition dest_path :: "config \<Rightarrow> path" where
  "dest_path c = path_join (ROOT_DIR c) (DEST (MAIN c))"

definition partials_path :: "config \<Rightarrow> path" where
  "partials_path c = path_join (ROOT_DIR c) (PARTIALS (MAIN c))"

definition templates_path :: "config \<Rightarrow> path" where
  "templates_path c = path_join (ROOT_DIR c) (TEMPLATES (MAIN c))"

definition assets_path :: "config \<Rightarrow> path" where
  "assets_path c = path_join (ROOT_DIR c) (ASSETS (MAIN c))"

definition source_path :: "config \<Rightarrow> path" where
  "source_path c = path_join (ROOT_DIR c) (SOURCE (MAIN c))"

definition main_paths :: "main_cfg \<Rightarrow> string list" where
  "main_paths m = [ASSETS m, DEST m, PARTIALS m, SOURCE m, TEMP m, TEMPLATES m]"

section \<open>Lemmas\<close>

lemma js_or_nonempty: "d \<noteq> [] \<Longrightarrow> js_or v d \<noteq> []"
  by (cases v) auto

lemma js_or_absent [simp]: "v = None \<or> v = Some [] \<Longrightarrow> js_or v d = d"
  by auto

section \<open>Properties\<close>

text \<open>
  C11: Every key of the recipe's \<open>MAIN\<close> object that is absent or the empty string
  is replaced by its documented default (\<open>./global_includes\<close>, \<open>./build\<close>,
  \<open>./partials/sections\<close>, \<open>./src\<close>, \<open>./temp\<close>,
  \<open>./partials/full_templates\<close>), every other key is kept, all flags start false,
  \<open>ROOT_DIR\<close> is the working directory and \<open>SS\<close> is the recipe's.
\<close>

theorem velveeva_defaults:
  assumes "recipe_MAIN r = Some m"
  shows "\<exists>c. Velveeva (Some r) cwd = Inr c \<and> FLAGS c = default_flags \<and> ROOT_DIR c = cwd \<and>
    SS c = recipe_SS r \<and>
    ASSETS (MAIN c) = (if globals_dir m \<in> {None, Some []} then ''./global_includes'' else the (globals_dir m)) \<and>
    DEST (MAIN c) = (if output_dir m \<in> {None, Some []} then ''./build'' else the (output_dir m)) \<and>
    PARTIALS (MAIN c) = (if partials_dir m \<in> {None, Some []} then ''./partials/sections'' else the (partials_dir m)) \<and>
    SOURCE (MAIN c) = (if source_dir m \<in> {None, Some []} then ''./src'' else the (source_dir m)) \<and>
    TEMP (MAIN c) = (if temp_dir m \<in> {None, Some []} then ''./temp'' else the (temp_dir m)) \<and>
    TEMPLATES (MAIN c) = (if templates_dir m \<in> {None, Some []} then ''./partials/full_templates'' else the (templates_dir m))"
proof -
  have js: "js_or v d = (if v \<in> {None, Some []} then d else the v)" for v d
    by (cases v) auto
  show ?thesis using assms by (simp add: Velveeva_def js)
qed

theorem velveeva_defaults_witness:
  "recipe_MAIN \<lparr>recipe_MAIN = Some \<lparr>globals_dir = None, output_dir = Some ''./out'', partials_dir = Some [],
      source_dir = None, temp_dir = None, templates_dir = None\<rparr>, recipe_SS = None\<rparr> =
     Some \<lparr>globals_dir = None, output_dir = Some ''./out'', partials_dir = Some [],
      source_dir = None, temp_dir = None, templates_dir = None\<rparr> \<and>
   (\<exists>c. Velveeva (Some \<lparr>recipe_MAIN = Some \<lparr>globals_dir = None, output_dir = Some ''./out'', partials_dir = Some [],
      source_dir = None, temp_dir = None, templates_dir = None\<rparr>, recipe_SS = None\<rparr>) [''home''] = Inr c \<and>
     DEST (MAIN c) = ''./out'' \<and> SOURCE (MAIN c) = ''./src'' \<and> PARTIALS (MAIN c) = ''./partials/sections'')"
  using velveeva_defaults [of "\<lparr>recipe_MAIN = Some \<lparr>globals_dir = None, output_dir = Some ''./out'', partials_dir = Some [],
      source_dir = None, temp_dir = None, templates_dir = None\<rparr>, recipe_SS = None\<rparr>"
      "\<lparr>globals_dir = None, output_dir = Some ''./out'', partials_dir = Some [],
      source_dir = None, temp_dir = None, templates_dir = None\<rparr>" "[''home'']"]
  by auto

text \<open>
  C12: Construction succeeds exactly when a recipe with a \<open>MAIN\<close> object is given;
  without a recipe, or with one lacking \<open>MAIN\<close>, the constructor throws a
  \<open>TypeError\<close> (the fallback \<open>configRecipe || {}\<close> of line 38 does not help,
  since line 40 reads \<open>configRecipe.MAIN.globals_dir\<close>).
\<close>

theorem velveeva_requires_main:
  "(\<exists>c. Velveeva r cwd = Inr c) \<longleftrightarrow> (\<exists>x m. r = Some x \<and> recipe_MAIN x = Some m)"
  by (auto simp: Velveeva_def empty_recipe_def split: option.splits)

theorem velveeva_requires_main_witness:
  "\<not> (\<exists>c. Velveeva None [''home''] = Inr c) \<and>
   Velveeva None [''home''] = Inl (ErrType ''Cannot read property 'globals_dir' of undefined'')"
  using velveeva_requires_main [of None "[''home'']"]
  by (simp add: Velveeva_def empty_recipe_def)



end
