(* ===== verification/Examples.thy ===== *)
theory Examples
  imports Config FileSys
begin

text \<open>
  Concrete inputs at which the properties of the development are instantiated: a
  project laid out as the default recipe expects, with one slide \<open>A\<close>, and the
  configuration \<open>new Velveeva\<close> builds for it under given flags.
\<close>

definition demo_dn :: path where
  "demo_dn = [''lib'']"

definition demo_main :: main_cfg where
  "demo_main = \<lparr>ASSETS = ''./global_includes'', DEST = ''./build'', PARTIALS = ''./partials/sections'',
     SOURCE = ''./src'', TEMP = ''./temp'', TEMPLATES = ''./partials/full_templates''\<rparr>"

definition demo_config :: "flags \<Rightarrow> config" where
  "demo_config fl = \<lparr>MAIN = demo_main, ROOT_DIR = [''proj''], FLAGS = fl, SS = None\<rparr>"

definition demo_tree :: node where
  "demo_tree = Dir [(''proj'', Dir [(''src'', Dir [(''A'', Dir [(''A.html'', File)])])])]"

text \<open>What a build writes: the slide directory \<open>A\<close> with its page and a stray file.\<close>

definition demo_out :: node where
  "demo_out = Dir [(''A'', Dir [(''A.html'', File), (''notes.txt'', File)])]"

text \<open>
  A built site: slide \<open>A\<close> with its page and a note, slide \<open>B\<close> whose only
  \<open>.htm\<close> match is a backup file, and a stray top-level file.
\<close>

definition demo_site :: node where
  "demo_site = Dir [(''build'', Dir [(''A'', Dir [(''A.html'', File), (''notes.txt'', File)]),
                                     (''B'', Dir [(''B.htm.bak'', File), (''index.html'', File)]),
                                     (''README'', File)])]"

text \<open>The project after a build: the site of \<open>demo_site\<close> under the project root.\<close>

definition demo_built :: node where
  "demo_built = Dir [(''proj'', demo_site)]"

text \<open>Flags of a full run: relink, screenshots, package and clean.\<close>

definition demo_flags :: flags where
  "demo_flags = default_flags\<lparr>RELINK := True, SCREENSHOTS := True, PACKAGE := True, CLEAN := True\<rparr>"

end
