(* ===== verification/Screenshot.thy ===== *)
theory Screenshot
  imports Confine Progress Config Examples
begin

text \<open>
  The screenshot sub-pipeline \<open>screenshots()\<close> (velveeva.js, lines 249--354).  The
  destination is scanned synchronously: its subdirectories (\<open>getDirectories\<close>),
  then for each the files (\<open>getFiles\<close>) whose name matches the regular expression
  \<open>new RegExp(dir + ".htm", "g")\<close>.  Each match starts an item pipeline
  \<open>takeScreenshot\<close>: render the page with PhantomJS to \<open><out>.png\<close>, convert it to
  \<open><out>-full.jpg\<close> on a white background, resize that to \<open><out>-thumb.jpg\<close>, and
  start the removal of the PNG without waiting for it.  Every item starts at once (no
  limit); \<open>Q.all\<close> over the items settles the stage's promise, rejecting as soon as
  one item rejects, without cancelling the others.  Item failures are reported with
  \<open>deferred.reject()\<close>, i.e. with \<open>undefined\<close>: the cause is dropped.

  The regular expression is modelled for directory names whose only special character
  is \<open>.\<close> (matching any character but a line break); other metacharacters are read
  literally here, while JavaScript would give them their regex meaning or throw.
\<close>

section \<open>Matching\<close>

text \<open>
  One character of the pattern against one of the subject: \<open>.\<close> matches any character
  but a line feed or a carriage return, every other character itself.
\<close>

definition rx_char :: "char \<Rightarrow> char \<Rightarrow> bool" where
  "rx_char p c \<longleftrightarrow> (if p = CHR ''.'' then c \<noteq> CHR 0x0A \<and> c \<noteq> CHR 0x0D else c = p)"

fun rx_match_here :: "string \<Rightarrow> string \<Rightarrow> bool" where
  "rx_match_here [] s = True"
| "rx_match_here (p # ps) [] = False"
| "rx_match_here (p # ps) (c # cs) = (rx_char p c \<and> rx_match_here ps cs)"

fun rx_search :: "string \<Rightarrow> string \<Rightarrow> bool" where
  "rx_search p [] = rx_match_here p []"
| "rx_search p (c # cs) = (rx_match_here p (c # cs) \<or> rx_search p cs)"

definition screenshot_match :: "string \<Rightarrow> string \<Rightarrow> bool" where
  "screenshot_match dir file = rx_search (dir @ ''.htm'') file"

text \<open>The selection the design asks for (spec, section 9): base name equal to the directory, an HTML extension.\<close>

definition intended_match :: "string \<Rightarrow> string \<Rightarrow> bool" where
  "intended_match dir file \<longleftrightarrow> file = dir @ ''.htm'' \<or> file = dir @ ''.html''"

section \<open>Item pipeline\<close>

definition rm_prog :: "path \<Rightarrow> prog" where
  "rm_prog p = Await (OUnlink p) Fail Done"

text \<open>
  \<open>outputFile = path.join(basePath, dir, full)\<close> with \<open>full = dir\<close>: the output
  names are taken from the directory, not from the matched file.
\<close>

definition output_file :: "path \<Rightarrow> string \<Rightarrow> string" where
  "output_file basePath dir = path_str (path_join (path_join basePath dir) dir)"

text \<open>The PhantomJS render of one matching file, and the verbose progress line.\<close>

definition render_op :: "sizes \<Rightarrow> path \<Rightarrow> string \<Rightarrow> string \<Rightarrow> ext_op" where
  "render_op sz basePath dir matchingFile =
     ORender (''file://'' @ path_str (path_join (path_join basePath dir) matchingFile))
       (parse_path (output_file basePath dir @ ''.png'')) (width (full sz)) (height (full sz))"

definition screenshot_line :: "bool \<Rightarrow> string \<Rightarrow> log_msg list" where
  "screenshot_line verbose matchingFile = (if verbose then [StdOut (''Screenshotting '' @ matchingFile)] else [])"

definition takeScreenshot :: "bool \<Rightarrow> sizes \<Rightarrow> path \<Rightarrow> string \<Rightarrow> string \<Rightarrow> prog" where
  "takeScreenshot verbose sz basePath dir matchingFile =
     (let outputFile = output_file basePath dir;
          fail = (\<lambda>_. Fail ErrUndefined)
      in emits (screenshot_line verbose matchingFile)
         (Await (render_op sz basePath dir matchingFile) fail
         (Await (OConvert [outputFile @ ''.png'', ''-background'', ''white'', ''-flatten'', outputFile @ name (full sz)]) fail
         (Await (OConvert [outputFile @ name (full sz), ''-resize'',
                           nat_str (width (thumb sz)) @ ''x'' @ nat_str (height (thumb sz)),
                           outputFile @ name (thumb sz)]) fail
         (fork (rm_prog (parse_path (outputFile @ ''.png''))) Done)))))"

section \<open>The stage\<close>

text \<open>
  \<open>spawn_items\<close> calls \<open>takeScreenshot\<close> for each matching file of one directory and
  collects the promises; \<open>scan_dirs\<close> walks the directories, reading each one's files
  (an exception goes to \<open>throw\<close>, the handler of the calling chain), and ends with
  the \<open>Q.all\<close> promise, which it does not wait for.
\<close>

fun spawn_items ::
  "bool \<Rightarrow> sizes \<Rightarrow> path \<Rightarrow> string \<Rightarrow> string list \<Rightarrow> nat list \<Rightarrow> (nat list \<Rightarrow> prog) \<Rightarrow> prog" where
  "spawn_items verbose sz basePath dir [] ids k = k ids"
| "spawn_items verbose sz basePath dir (f # files) ids k =
     Spawn (takeScreenshot verbose sz basePath dir f)
       (\<lambda>i. spawn_items verbose sz basePath dir files (ids @ [i]) k)"

fun scan_dirs ::
  "bool \<Rightarrow> sizes \<Rightarrow> path \<Rightarrow> (js_err \<Rightarrow> prog) \<Rightarrow> string list \<Rightarrow> nat list \<Rightarrow> prog \<Rightarrow> prog" where
  "scan_dirs verbose sz basePath throw [] ids k = fork (Join ids (\<lambda>_. Fail ErrUndefined) Done) k"
| "scan_dirs verbose sz basePath throw (d # ds) ids k =
     Read (\<lambda>t. map_sum id
                (\<lambda>files. spawn_items verbose sz basePath d (filter (screenshot_match d) files) ids
                           (\<lambda>ids'. scan_dirs verbose sz basePath throw ds ids' k))
                (getFiles t (path_join basePath d)))
          throw"

definition screenshots :: "bool \<Rightarrow> sizes \<Rightarrow> path \<Rightarrow> (js_err \<Rightarrow> prog) \<Rightarrow> prog \<Rightarrow> prog" where
  "screenshots verbose sz basePath throw k =
     Read (\<lambda>t. map_sum id (\<lambda>dirs. scan_dirs verbose sz basePath throw dirs [] k)
                (getDirectories t basePath))
          throw"

text \<open>
  The pairs (directory, matching file) the scan visits, in order, up to the first
  directory whose listing throws, and that exception if any: the list the lodash chain of
  lines 326--339 turns into \<open>takeScreenshot\<close> calls.
\<close>

fun scan_items :: "node \<Rightarrow> path \<Rightarrow> string list \<Rightarrow> (string \<times> string) list \<times> js_err option" where
  "scan_items t basePath [] = ([], None)"
| "scan_items t basePath (d # ds) =
     (case getFiles t (path_join basePath d) of
        Inl e \<Rightarrow> ([], Some e)
      | Inr files \<Rightarrow>
          (case scan_items t basePath ds of
             (its, err) \<Rightarrow> (map (\<lambda>file. (d, file)) (filter (screenshot_match d) files) @ its, err)))"

definition scan_plan :: "node \<Rightarrow> path \<Rightarrow> (string \<times> string) list \<times> js_err option" where
  "scan_plan t basePath =
     (case getDirectories t basePath of Inl e \<Rightarrow> ([], Some e) | Inr dirs \<Rightarrow> scan_items t basePath dirs)"

text \<open>
  The operations an item pipeline starts: the PhantomJS render of a \<open>file://\<close> page
  with the \<open>full\<close> viewport, the two ImageMagick conversions and the removal of
  the PNG.
\<close>

fun item_op :: "sizes \<Rightarrow> ext_op \<Rightarrow> bool" where
  "item_op sz (ORender url out w h) \<longleftrightarrow> take 7 url = ''file://'' \<and> w = width (full sz) \<and> h = height (full sz)"
| "item_op sz (OConvert args) \<longleftrightarrow> True"
| "item_op sz (OUnlink p) \<longleftrightarrow> True"
| "item_op sz _ \<longleftrightarrow> False"

section \<open>What the stage may start\<close>

lemma may_start_takeScreenshot:
  "may_start (takeScreenshot v sz basePath dir file) op \<Longrightarrow> item_op sz op"
  by (auto simp: takeScreenshot_def Let_def render_op_def rm_prog_def may_start_simps may_start_fork)

lemma may_start_spawn_items:
  "may_start (spawn_items v sz basePath dir files ids k) op \<Longrightarrow>
   item_op sz op \<or> (\<exists>ids'. may_start (k ids') op)"
  by (induction files arbitrary: ids) (auto simp: may_start_Spawn dest: may_start_takeScreenshot)

lemma may_start_scan_dirs:
  "may_start (scan_dirs v sz basePath throw ds ids k) op \<Longrightarrow>
   item_op sz op \<or> may_start k op \<or> (\<exists>e. may_start (throw e) op)"
proof (induction ds arbitrary: ids)
  case Nil
  then show ?case by (auto simp: may_start_fork may_start_Join)
next
  case (Cons d ds)
  from Cons.prems show ?case
    by (auto simp: may_start_Read dest!: may_start_spawn_items Cons.IH split: sum.splits)
qed

lemma may_start_screenshots:
  "may_start (screenshots v sz basePath throw k) op \<Longrightarrow>
   item_op sz op \<or> may_start k op \<or> (\<exists>e. may_start (throw e) op)"
  by (auto simp: screenshots_def may_start_Read dest!: may_start_scan_dirs split: sum.splits)

section \<open>Progress of the scan\<close>

text \<open>
  The scan runs inside one callback of the calling chain: it starts the render of each
  match as it finds it, and the chain goes on without waiting for any of them.
\<close>

lemma launch_takeScreenshot:
  assumes "launch (takeScreenshot v sz b d file) w = (i, w1)"
  shows "i = length (fibers w) \<and> length (fibers w1) = Suc (length (fibers w)) \<and>
         take (length (fibers w)) (fibers w1) = fibers w \<and>
         pending w1 = pending w @ [(next_op w, render_op sz b d file, length (fibers w))] \<and>
         console w1 = console w @ screenshot_line v file \<and> fs w1 = fs w"
  using launch_emits_Await [of "screenshot_line v file"] assms
  by (fastforce simp: takeScreenshot_def Let_def)

lemma ticks_spawn_items:
  "f < length (fibers w) \<Longrightarrow> fibers w ! f = spawn_items v sz b d files ids k \<Longrightarrow>
   \<exists>w' ids'. ticks f w w' \<and> f < length (fibers w') \<and> fibers w' ! f = k ids' \<and>
     console w' = console w @ concat (map (screenshot_line v) files) \<and>
     (\<exists>added. pending w' = pending w @ added \<and> map (fst \<circ> snd) added = map (render_op sz b d) files)"
proof (induction files arbitrary: w ids)
  case Nil
  then show ?case by (auto intro: ticks.refl)
next
  case (Cons fl files)
  obtain i w1 where l: "launch (takeScreenshot v sz b d fl) w = (i, w1)" by fastforce
  let ?w2 = "set_fiber f (spawn_items v sz b d files (ids @ [i]) k) w1"
  have t: "tick f w = Some ?w2" using Cons.prems l by (simp add: tick_def)
  note L = launch_takeScreenshot [OF l]
  have f2: "f < length (fibers ?w2)" "fibers ?w2 ! f = spawn_items v sz b d files (ids @ [i]) k"
    using Cons.prems L by (simp_all add: set_fiber_def)
  from Cons.IH [OF f2] obtain w' ids' added where
    "ticks f ?w2 w'" "f < length (fibers w')" "fibers w' ! f = k ids'"
    "console w' = console ?w2 @ concat (map (screenshot_line v) files)"
    "pending w' = pending ?w2 @ added" "map (fst \<circ> snd) added = map (render_op sz b d) files"
    by blast
  moreover have "console ?w2 = console w @ screenshot_line v fl"
    "pending ?w2 = pending w @ [(next_op w, render_op sz b d fl, length (fibers w))]"
    using L by (simp_all add: set_fiber_def)
  ultimately have "ticks f w w' \<and> f < length (fibers w') \<and> fibers w' ! f = k ids' \<and>
     console w' = console w @ concat (map (screenshot_line v) (fl # files)) \<and>
     pending w' = pending w @ ((next_op w, render_op sz b d fl, length (fibers w)) # added) \<and>
     map (fst \<circ> snd) ((next_op w, render_op sz b d fl, length (fibers w)) # added) =
       map (render_op sz b d) (fl # files)"
    using t by (simp add: ticks.step)
  then show ?case by blast
qed

lemma ticks_scan_dirs:
  "f < length (fibers w) \<Longrightarrow> fibers w ! f = scan_dirs v sz b throw ds ids k \<Longrightarrow>
   scan_items (fs w) b ds = (items, err) \<Longrightarrow>
   \<exists>w'. ticks f w w' \<and> f < length (fibers w') \<and> fibers w' ! f = (case err of None \<Rightarrow> k | Some e \<Rightarrow> throw e) \<and>
     console w' = console w @ concat (map (\<lambda>(d, fl). screenshot_line v fl) items) \<and>
     (\<exists>added. pending w' = pending w @ added \<and>
        map (fst \<circ> snd) added = map (\<lambda>(d, fl). render_op sz b d fl) items)"
proof (induction ds arbitrary: w ids items err)
  case Nil
  let ?w1 = "set_fiber f k (snd (add_fiber (Join ids (\<lambda>_. Fail ErrUndefined) Done) w))"
  have "tick f w = Some ?w1" using Nil.prems by (simp add: tick_def fork_def add_fiber_def)
  moreover have "f < length (fibers ?w1)" "fibers ?w1 ! f = k" "console ?w1 = console w" "pending ?w1 = pending w"
    using Nil.prems by (simp_all add: set_fiber_def add_fiber_def)
  ultimately show ?case using Nil.prems by (auto intro!: ticks_one)
next
  case (Cons d ds)
  from tick_Read [OF Cons.prems(1)] Cons.prems(2) obtain w1 where
    t1: "ticks f w w1" "f < length (fibers w1)" and
    f1: "fibers w1 ! f = (case getFiles (fs w) (path_join b d) of
            Inl e \<Rightarrow> throw e
          | Inr files \<Rightarrow> spawn_items v sz b d (filter (screenshot_match d) files) ids
                          (\<lambda>ids'. scan_dirs v sz b throw ds ids' k))" and
    e1: "console w1 = console w" "pending w1 = pending w" "fs w1 = fs w"
    by (fastforce split: sum.splits)
  show ?case
  proof (cases "getFiles (fs w) (path_join b d)")
    case (Inl e)
    with Cons.prems(3) t1 f1 e1 show ?thesis by (auto intro: exI [of _ "[]"])
  next
    case (Inr files)
    obtain its err' where its: "scan_items (fs w) b ds = (its, err')" by fastforce
    with Cons.prems(3) Inr have items: "items = map (Pair d) (filter (screenshot_match d) files) @ its"
      and err: "err = err'" by auto
    from ticks_spawn_items [OF t1(2)] f1 Inr obtain w2 ids' added1 where
      t2: "ticks f w1 w2" "f < length (fibers w2)" "fibers w2 ! f = scan_dirs v sz b throw ds ids' k" and
      c2: "console w2 = console w1 @ concat (map (screenshot_line v) (filter (screenshot_match d) files))" and
      p2: "pending w2 = pending w1 @ added1"
        "map (fst \<circ> snd) added1 = map (render_op sz b d) (filter (screenshot_match d) files)"
      by fastforce
    have "fs w2 = fs w" using ticks_effect [OF t2(1)] e1 by simp
    with its have "scan_items (fs w2) b ds = (its, err')" by simp
    from Cons.IH [OF t2(2,3) this] obtain w3 added2 where
      t3: "ticks f w2 w3" "f < length (fibers w3)" "fibers w3 ! f = (case err' of None \<Rightarrow> k | Some e \<Rightarrow> throw e)" and
      c3: "console w3 = console w2 @ concat (map (\<lambda>(d, fl). screenshot_line v fl) its)" and
      p3: "pending w3 = pending w2 @ added2" "map (fst \<circ> snd) added2 = map (\<lambda>(d, fl). render_op sz b d fl) its"
      by blast
    have "ticks f w w3" using t1(1) t2(1) t3(1) by (blast intro: ticks_trans)
    moreover have "console w3 = console w @ concat (map (\<lambda>(d, fl). screenshot_line v fl) items)"
      using c3 c2 e1 items by (simp add: comp_def)
    moreover have "pending w3 = pending w @ (added1 @ added2) \<and>
        map (fst \<circ> snd) (added1 @ added2) = map (\<lambda>(d, fl). render_op sz b d fl) items"
      using p3 p2 e1 items by (simp add: comp_def)
    ultimately show ?thesis using t3(2,3) err by blast
  qed
qed

lemma ticks_screenshots:
  assumes "f < length (fibers w)" "fibers w ! f = screenshots v sz b throw k" "scan_plan (fs w) b = (items, err)"
  shows "\<exists>w' added. ticks f w w' \<and> fibers w' ! f = (case err of None \<Rightarrow> k | Some e \<Rightarrow> throw e) \<and>
           console w' = console w @ concat (map (\<lambda>(d, fl). screenshot_line v fl) items) \<and>
           pending w' = pending w @ added \<and> trace w' = trace w @ started added \<and>
           map (fst \<circ> snd) added = map (\<lambda>(d, fl). render_op sz b d fl) items"
proof -
  from tick_Read [OF assms(1)] assms(2) obtain w1 where
    t1: "ticks f w w1" "f < length (fibers w1)" and
    f1: "fibers w1 ! f = (case getDirectories (fs w) b of
            Inl e \<Rightarrow> throw e | Inr dirs \<Rightarrow> scan_dirs v sz b throw dirs [] k)" and
    e1: "console w1 = console w" "pending w1 = pending w" "fs w1 = fs w"
    by (fastforce simp: screenshots_def split: sum.splits)
  have "\<exists>w'. ticks f w1 w' \<and> fibers w' ! f = (case err of None \<Rightarrow> k | Some e \<Rightarrow> throw e) \<and>
           console w' = console w1 @ concat (map (\<lambda>(d, fl). screenshot_line v fl) items) \<and>
           (\<exists>added. pending w' = pending w1 @ added \<and>
              map (fst \<circ> snd) added = map (\<lambda>(d, fl). render_op sz b d fl) items)"
  proof (cases "getDirectories (fs w) b")
    case (Inl e)
    with assms(3) f1 show ?thesis by (auto simp: scan_plan_def intro: ticks.refl)
  next
    case (Inr dirs)
    with assms(3) e1 have "scan_items (fs w1) b dirs = (items, err)" by (simp add: scan_plan_def)
    have "fibers w1 ! f = scan_dirs v sz b throw dirs [] k" using f1 Inr by simp
    from ticks_scan_dirs [OF t1(2) this \<open>scan_items (fs w1) b dirs = (items, err)\<close>] show ?thesis by blast
  qed
  then obtain w' added where
    t2: "ticks f w1 w'" "fibers w' ! f = (case err of None \<Rightarrow> k | Some e \<Rightarrow> throw e)"
      "console w' = console w1 @ concat (map (\<lambda>(d, fl). screenshot_line v fl) items)"
      "pending w' = pending w1 @ added" "map (fst \<circ> snd) added = map (\<lambda>(d, fl). render_op sz b d fl) items"
    by blast
  obtain a1 where a1: "pending w1 = pending w @ a1" "trace w1 = trace w @ started a1"
    using ticks_effect [OF t1(1)] by blast
  obtain a2 where a2: "pending w' = pending w1 @ a2" "trace w' = trace w1 @ started a2"
    using ticks_effect [OF t2(1)] by blast
  from a1(1) e1(2) have "a1 = []" by simp
  moreover from a2(1) t2(4) have "a2 = added" by simp
  ultimately have tr: "trace w' = trace w @ started added" using a1(2) a2(2) by simp
  have "ticks f w w'" using ticks_trans [OF t1(1) t2(1)] .
  with t2(2,3,4,5) e1(1,2) tr show ?thesis
    by (intro exI [of _ w'] exI [of _ added]) simp
qed

section \<open>The filter, characterised\<close>

text \<open>
  A search succeeds at some suffix; a match at the start consumes exactly as many
  characters as the pattern has, each accepted by \<open>rx_char\<close>.
\<close>

lemma rx_search_iff: "rx_search p s \<longleftrightarrow> (\<exists>x y. s = x @ y \<and> rx_match_here p y)"
proof (induction s)
  case (Cons c cs)
  then show ?case by (auto simp: Cons_eq_append_conv)
qed simp

lemma rx_match_here_iff: "rx_match_here p s \<longleftrightarrow> (\<exists>z r. s = z @ r \<and> list_all2 rx_char p z)"
proof (induction p arbitrary: s)
  case (Cons a p)
  show ?case
  proof (cases s)
    case Nil
    then show ?thesis by simp
  next
    case s: (Cons c cs)
    have "rx_match_here (a # p) (c # cs) \<longleftrightarrow> rx_char a c \<and> (\<exists>z r. cs = z @ r \<and> list_all2 rx_char p z)"
      using Cons.IH by simp
    also have "\<dots> \<longleftrightarrow> (\<exists>z r. c # cs = z @ r \<and> list_all2 rx_char (a # p) z)"
    proof
      assume "rx_char a c \<and> (\<exists>z r. cs = z @ r \<and> list_all2 rx_char p z)"
      then obtain z r where "rx_char a c" "cs = z @ r" "list_all2 rx_char p z" by blast
      then show "\<exists>z r. c # cs = z @ r \<and> list_all2 rx_char (a # p) z"
        by (intro exI [of _ "c # z"] exI [of _ r]) simp
    next
      assume "\<exists>z r. c # cs = z @ r \<and> list_all2 rx_char (a # p) z"
      then obtain z r where e: "c # cs = z @ r" and l: "list_all2 rx_char (a # p) z" by blast
      from l obtain c' z' where "z = c' # z'" "rx_char a c'" "list_all2 rx_char p z'"
        by (auto simp: list_all2_Cons1)
      with e show "rx_char a c \<and> (\<exists>z r. cs = z @ r \<and> list_all2 rx_char p z)" by auto
    qed
    finally show ?thesis using s by simp
  qed
qed simp

lemma rx_char_self [simp]: "rx_char c c"
  by (simp add: rx_char_def)

lemma list_all2_rx_literal: "CHR ''.'' \<notin> set p \<Longrightarrow> list_all2 rx_char p z \<longleftrightarrow> z = p"
proof (induction p arbitrary: z)
  case (Cons a p)
  then show ?case by (cases z) (auto simp: rx_char_def)
qed simp

lemma list_all2_rx_self: "list_all2 rx_char p p"
  by (induction p) simp_all

section \<open>Properties\<close>

text \<open>
  C4: The screenshot stage, run by a fiber on a destination tree, starts exactly one
  PhantomJS render per (directory, matching file) pair of the scan, in scan order, prints
  one progress line per match when verbose, and then hands control back to the calling
  chain (or, when a listing throws, to its rejection handler, the renders of the
  directories scanned before still started).  No operation completes meanwhile: the
  stage does not wait for its items.
\<close>

theorem screenshots_start_renders:
  assumes "f < length (fibers w)" "fibers w ! f = screenshots v sz b throw k" "scan_plan (fs w) b = (items, err)"
  shows "\<exists>w' added. ticks f w w' \<and> fibers w' ! f = (case err of None \<Rightarrow> k | Some e \<Rightarrow> throw e) \<and>
           console w' = console w @ concat (map (\<lambda>(d, fl). screenshot_line v fl) items) \<and>
           pending w' = pending w @ added \<and> trace w' = trace w @ started added \<and>
           map (fst \<circ> snd) added = map (\<lambda>(d, fl). render_op sz b d fl) items"
  using assms by (rule ticks_screenshots)

theorem screenshots_start_renders_witness:
  "scan_plan demo_site [''build''] = ([(''A'', ''A.html''), (''B'', ''B.htm.bak'')], None) \<and>
   (\<exists>w' added. ticks 0 (start (screenshots False default_sizes [''build''] Fail Done) demo_site) w' \<and>
      fibers w' ! 0 = Done \<and> pending w' = added \<and> trace w' = started added \<and>
      map (fst \<circ> snd) added = [render_op default_sizes [''build''] ''A'' ''A.html'',
                                render_op default_sizes [''build''] ''B'' ''B.htm.bak''])"
proof -
  let ?w = "start (screenshots False default_sizes [''build''] Fail Done) demo_site"
  have plan: "scan_plan demo_site [''build''] = ([(''A'', ''A.html''), (''B'', ''B.htm.bak'')], None)"
    by (simp add: scan_plan_def demo_site_def getDirectories_def getFiles_def readdir_def
                  path_join_def screenshot_match_def is_dir_def rx_char_def)
  have h1: "0 < length (fibers ?w)" and h2: "fibers ?w ! 0 = screenshots False default_sizes [''build''] Fail Done"
    and h3: "scan_plan (fs ?w) [''build''] = ([(''A'', ''A.html''), (''B'', ''B.htm.bak'')], None)"
    using plan by (simp_all add: start_def)
  from screenshots_start_renders [OF h1 h2 h3]
  obtain w' added where
    "ticks 0 ?w w'" "fibers w' ! 0 = Done" "pending w' = pending ?w @ added" "trace w' = trace ?w @ started added"
    "map (fst \<circ> snd) added = map (\<lambda>(d, fl). render_op default_sizes [''build''] d fl)
                                 [(''A'', ''A.html''), (''B'', ''B.htm.bak'')]"
    by (simp only: option.case) blast
  moreover have "pending ?w = []" "trace ?w = []" by (simp_all add: start_def)
  ultimately show ?thesis using plan by auto
qed






text \<open>
  C7: The promise of an item (\<open>takeScreenshot\<close>) is only ever rejected with
  \<open>undefined\<close>: whichever step fails (the conversion to JPEG, the resize), the error
  of ImageMagick is dropped by \<open>deferred.reject()\<close>.
\<close>

theorem takeScreenshot_rejects_undefined:
  assumes "reach (start (takeScreenshot v sz b d fl) t) w" "fibers w ! 0 = Fail e"
  shows "e = ErrUndefined"
proof -
  from reach_start_fail [OF assms] have "may_fail (takeScreenshot v sz b d fl) e" .
  then show ?thesis by (simp add: takeScreenshot_def Let_def rm_prog_def)
qed

theorem takeScreenshot_rejects_undefined_witness:
  "\<exists>w. reach (start (takeScreenshot False default_sizes [''build''] ''A'' ''A.html'') demo_site) w \<and>
     fibers w ! 0 = Fail ErrUndefined \<and>
     Finish 1 (OConvert [''/build/A/A.png'', ''-background'', ''white'', ''-flatten'', ''/build/A/A-full.jpg''])
       (Inl (ErrConvert ''boom'')) \<in> set (trace w)"
proof -
  have "\<exists>w. run [Tick 0, Complete 0 EnvNone, Tick 0, Complete 1 (EnvConvert (Some ''boom''))]
            (start (takeScreenshot False default_sizes [''build''] ''A'' ''A.html'') demo_site) = Some w \<and>
          fibers w ! 0 = Fail ErrUndefined \<and>
          Finish 1 (OConvert [''/build/A/A.png'', ''-background'', ''white'', ''-flatten'', ''/build/A/A-full.jpg''])
            (Inl (ErrConvert ''boom'')) \<in> set (trace w)"
    by (simp add: start_def takeScreenshot_def Let_def render_op_def output_file_def path_join_def path_str_def
                  screenshot_line_def emits_def tick_def complete_def issue_def set_fiber_def render_result_def
                  write_file_def parse_path_def convert_result_def convertImage_callback_def deferred_resolve_def
                  deferred_reject_def demo_site_def default_sizes_def)
  then obtain w where r: "reach (start (takeScreenshot False default_sizes [''build''] ''A'' ''A.html'') demo_site) w"
    and f: "fibers w ! 0 = Fail ErrUndefined"
    and t: "Finish 1 (OConvert [''/build/A/A.png'', ''-background'', ''white'', ''-flatten'', ''/build/A/A-full.jpg''])
              (Inl (ErrConvert ''boom'')) \<in> set (trace w)"
    by (blast dest: reach_run)
  from takeScreenshot_rejects_undefined [OF r f] r f t show ?thesis by blast
qed

end
