(* ===== verification/Gate.thy ===== *)
theory Gate
  imports Prelude
begin

text \<open>
  The conditional stage gate \<open>executeWhen(condition, func, successMsg, failureMsg)\<close>
  (velveeva.js, lines 135--147).  A condition is one boolean or an array of them,
  folded with \<open>reduce((acc, val) => acc && val, true)\<close>.  When it holds, the
  success message (if truthy) is noted and \<open>func()\<close> is called and its value
  returned; otherwise the failure message (if truthy) is noted and a function value
  is returned, which is never a promise and which nobody calls (its body would throw,
  \<open>Q.Defer\<close> not being a function of Q).  The result records whether
  \<open>func\<close> was invoked, with the value it returned.
\<close>

datatype cond = CBool bool | CList "bool list"

fun cond_value :: "cond \<Rightarrow> bool" where
  "cond_value (CBool b) = b"
| "cond_value (CList bs) = foldl (\<lambda>acc v. acc \<and> v) True bs"

datatype 'a gate_result = Invoked 'a | ShortCircuit

text \<open>A message is printed when it is a truthy string: present and non-empty.\<close>

fun note_if :: "string option \<Rightarrow> log_msg list" where
  "note_if None = []"
| "note_if (Some m) = (if m = [] then [] else [Note m])"

definition executeWhen ::
  "cond \<Rightarrow> 'a \<Rightarrow> string option \<Rightarrow> string option \<Rightarrow> log_msg list \<times> 'a gate_result" where
  "executeWhen c func successMsg failureMsg =
     (if cond_value c then (note_if successMsg, Invoked func)
      else (note_if failureMsg, ShortCircuit))"

lemma foldl_conj: "foldl (\<lambda>acc v. acc \<and> v) a bs \<longleftrightarrow> a \<and> (\<forall>b\<in>set bs. b)"
  by (induction bs arbitrary: a) auto

lemma cond_value_list [simp]: "cond_value (CList bs) \<longleftrightarrow> (\<forall>b\<in>set bs. b)"
  by (simp add: foldl_conj)

text \<open>
  C14: An array condition behaves exactly as the conjunction of its elements:
  \<open>executeWhen([true, false], f)\<close> is \<open>executeWhen(false, f)\<close>,
  \<open>executeWhen([true, true], f)\<close> is \<open>executeWhen(true, f)\<close>, and the empty array
  counts as true.
\<close>

theorem executeWhen_list_conj:
  "executeWhen (CList bs) func s f = executeWhen (CBool (\<forall>b\<in>set bs. b)) func s f"
  by (simp add: executeWhen_def foldl_conj)

theorem executeWhen_list_conj_witness:
  "executeWhen (CList [True, False]) (1::nat) (Some ''go'') (Some ''skip'') =
     executeWhen (CBool False) (1::nat) (Some ''go'') (Some ''skip'') \<and>
   executeWhen (CList []) (1::nat) (Some ''go'') None = ([Note ''go''], Invoked 1)"
  using executeWhen_list_conj [of "[True, False]" "1::nat" "Some ''go''" "Some ''skip''"]
    executeWhen_list_conj [of "[]" "1::nat" "Some ''go''" None]
  by (simp add: executeWhen_def)



end
