(* ===== verification/Bake.thy ===== *)
theory Bake
  imports Screenshot Gate Examples
begin

text \<open>
  The pipeline orchestrator \<open>bake()\<close> (velveeva.js, lines 149--214) and the stage
  actions it gates (\<open>relink\<close>, \<open>veev2rel\<close>, \<open>pkg\<close>, lines 241--247 and 356--358).
  \<open>bake\<close> is one Q chain: print \<open>Baking\<close>; \<open>mkdir\<close> the temporary directory;
  the assemble build from the source into the temporary directory; print
  \<open>Mixing in SASS\<close> and the style build into the destination; then five
  \<open>.then\<close> callbacks, each calling \<open>executeWhen\<close> for one flag (relink, veev2rel,
  screenshots, package, clean); then \<open>.done\<close>, which prints \<open>yum!\<close> and resolves,
  or prints the error and rejects.  The gate callbacks do not \<open>return\<close> the promise
  of their action, so each action starts and the chain goes on at once: the actions
  run concurrently with each other and with the rest of the chain, and their failures
  never reach the chain.  An exception thrown synchronously inside a callback (the
  directory scan of the screenshot stage) does reject the chain.

  \<open>dn\<close> stands for \<open>__dirname\<close>, the directory of velveeva.js, where
  \<open>re_link.py\<close> and \<open>package_slides.sh\<close> live.  Metalsmith resolves its source and
  destination with \<open>path.resolve\<close>, the rest of the code with \<open>path.join\<close>.
\<close>

section \<open>Messages\<close>

text \<open>\<open>error(err)\<close> prints the error converted to a string.\<close>

fun js_str :: "js_err \<Rightarrow> string" where
  "js_str (ErrStr s) = s"
| "js_str (ErrFs code p) = ''Error: '' @ code @ '', '' @ path_str p"
| "js_str (ErrBuild m) = ''Error: '' @ m"
| "js_str (ErrConvert m) = ''Error: '' @ m"
| "js_str (ErrType m) = ''TypeError: '' @ m"
| "js_str ErrUndefined = ''undefined''"

definition bake_fail :: "js_err \<Rightarrow> prog" where
  "bake_fail e = Emit (Error (js_str e)) (Fail e)"

definition bake_success :: prog where
  "bake_success = Emit (Success (''yum!'' @ glyph_pizza)) Done"

section \<open>Stage actions\<close>

text \<open>The promise of \<open>runShellScript\<close>, of \<open>rmdir\<close>, and the three scripted stages.\<close>

definition shell_prog :: "ext_op \<Rightarrow> prog" where
  "shell_prog op = Await op Fail Done"

definition rmdir_prog :: "path \<Rightarrow> prog" where
  "rmdir_prog p = Await (ORimraf p) Fail Done"

definition relink_op :: "path \<Rightarrow> config \<Rightarrow> ext_op" where
  "relink_op dn c =
     OSpawn ''python3'' [path_str (path_join dn ''./re_link.py''), path_str (dest_path c)] None
       ''Linking'' (VERBOSE (FLAGS c))"

definition veev2rel_op :: "path \<Rightarrow> config \<Rightarrow> ext_op" where
  "veev2rel_op dn c =
     OSpawn ''python3'' [path_str (path_join dn ''./re_link.py''), ''--veev2rel'', path_str (dest_path c)] None
       ''veev2rel'' (VERBOSE (FLAGS c))"

definition pkg_op :: "path \<Rightarrow> config \<Rightarrow> ext_op" where
  "pkg_op dn c =
     OSpawn ''sh'' [path_str (path_join dn ''./package_slides.sh'')] (Some (dest_path c))
       ''Packaging'' (VERBOSE (FLAGS c))"

section \<open>The chain\<close>

text \<open>
  One gate callback \<open>.then(function () { executeWhen(flag, action, msg); })\<close>: the
  value of \<open>executeWhen\<close> is dropped, so the chain continues with \<open>k\<close> once the
  synchronous part of the action has run (\<open>action k\<close>).
\<close>

definition then_gate :: "cond \<Rightarrow> (prog \<Rightarrow> prog) \<Rightarrow> string option \<Rightarrow> prog \<Rightarrow> prog" where
  "then_gate c action msg k =
     (case executeWhen c (action k) msg None of
        (ms, Invoked p) \<Rightarrow> emits ms p
      | (ms, ShortCircuit) \<Rightarrow> emits ms k)"

definition assemble_op :: "config \<Rightarrow> ext_op" where
  "assemble_op c =
     OBuild (Assemble (partials_path c) (templates_path c) (assets_path c))
       (path_resolve (ROOT_DIR c) (SOURCE (MAIN c))) (path_resolve (ROOT_DIR c) (TEMP (MAIN c)))"

definition sass_op :: "config \<Rightarrow> ext_op" where
  "sass_op c = OBuild Sass (path_resolve (ROOT_DIR c) (TEMP (MAIN c))) (path_resolve (ROOT_DIR c) (DEST (MAIN c)))"

definition bake_gates :: "path \<Rightarrow> config \<Rightarrow> prog" where
  "bake_gates dn c =
     then_gate (CBool (RELINK (FLAGS c))) (fork (shell_prog (relink_op dn c)))
       (Some (glyph_arrow @ '' Whipping up assets and hyperlinks ''))
     (then_gate (CBool (VEEV2REL (FLAGS c))) (fork (shell_prog (veev2rel_op dn c)))
       (Some (glyph_arrow @ '' VEEV2REL ''))
     (then_gate (CBool (SCREENSHOTS (FLAGS c)))
       (screenshots (VERBOSE (FLAGS c)) (screenshot_sizes c) (dest_path c) bake_fail)
       (Some (glyph_arrow @ '' Sprinkling with screenshots ''))
     (then_gate (CBool (PACKAGE (FLAGS c))) (fork (shell_prog (pkg_op dn c)))
       (Some (glyph_arrow @ '' Bagging it up''))
     (then_gate (CBool (CLEAN (FLAGS c))) (fork (rmdir_prog (temp_path c))) None
       bake_success))))"

text \<open>
  The chain after \<open>mkdir\<close>: the assemble build, whose success starts the style build,
  whose success runs the gates.
\<close>

definition bake_sass :: "path \<Rightarrow> config \<Rightarrow> prog" where
  "bake_sass dn c = Emit (Note (glyph_arrow @ '' Mixing in SASS '')) (Await (sass_op c) bake_fail (bake_gates dn c))"

definition bake_assemble :: "path \<Rightarrow> config \<Rightarrow> prog" where
  "bake_assemble dn c = Await (assemble_op c) bake_fail (bake_sass dn c)"

definition bake :: "path \<Rightarrow> config \<Rightarrow> prog" where
  "bake dn c =
     Emit (Note (glyph_arrow @ '' Baking ''))
     (Await (OMkdirp (temp_path c)) bake_fail (bake_assemble dn c))"

text \<open>
  The operations \<open>bake\<close> is allowed to start under a configuration: the three
  stages it awaits, and each gated action only when its flag is set.
\<close>

definition bake_op :: "path \<Rightarrow> config \<Rightarrow> ext_op \<Rightarrow> bool" where
  "bake_op dn c op \<longleftrightarrow>
     op = OMkdirp (temp_path c) \<or> op = assemble_op c \<or> op = sass_op c \<or>
     (RELINK (FLAGS c) \<and> op = relink_op dn c) \<or>
     (VEEV2REL (FLAGS c) \<and> op = veev2rel_op dn c) \<or>
     (SCREENSHOTS (FLAGS c) \<and> item_op (screenshot_sizes c) op) \<or>
     (PACKAGE (FLAGS c) \<and> op = pkg_op dn c) \<or>
     (CLEAN (FLAGS c) \<and> op = ORimraf (temp_path c))"

text \<open>
  The states of a run of \<open>bake\<close> up to the end of the assemble build: \<open>bake\<close> is the
  only fiber, and its trace is a prefix of \<open>mkdir\<close> and the assemble build; after
  the build succeeded, the assemble build is never started again.
\<close>

abbreviation mk_op :: "config \<Rightarrow> ext_op" where "mk_op c \<equiv> OMkdirp (temp_path c)"

inductive early :: "path \<Rightarrow> config \<Rightarrow> world \<Rightarrow> bool" for dn c where
  e0: "fibers w = [bake dn c] \<Longrightarrow> pending w = [] \<Longrightarrow> trace w = [] \<Longrightarrow> next_op w = 0 \<Longrightarrow> early dn c w"
| e1: "fibers w = [Await (mk_op c) bake_fail (bake_assemble dn c)] \<Longrightarrow> pending w = [] \<Longrightarrow> trace w = [] \<Longrightarrow>
       next_op w = 0 \<Longrightarrow> early dn c w"
| e2: "fibers w = [Waiting 0 bake_fail (bake_assemble dn c)] \<Longrightarrow> pending w = [(0, mk_op c, 0)] \<Longrightarrow>
       trace w = [Start 0 (mk_op c)] \<Longrightarrow> next_op w = 1 \<Longrightarrow> early dn c w"
| e_mk_fail: "fibers w = [bake_fail e] \<or> fibers w = [Fail e] \<Longrightarrow> pending w = [] \<Longrightarrow>
       trace w = [Start 0 (mk_op c), Finish 0 (mk_op c) (Inl e)] \<Longrightarrow> next_op w = 1 \<Longrightarrow> early dn c w"
| e3: "fibers w = [bake_assemble dn c] \<Longrightarrow> pending w = [] \<Longrightarrow>
       trace w = [Start 0 (mk_op c), Finish 0 (mk_op c) (Inr ())] \<Longrightarrow> next_op w = 1 \<Longrightarrow> early dn c w"
| e4: "fibers w = [Waiting 1 bake_fail (bake_sass dn c)] \<Longrightarrow> pending w = [(1, assemble_op c, 0)] \<Longrightarrow>
       trace w = [Start 0 (mk_op c), Finish 0 (mk_op c) (Inr ()), Start 1 (assemble_op c)] \<Longrightarrow>
       next_op w = 2 \<Longrightarrow> early dn c w"
| e_as_fail: "fibers w = [bake_fail e] \<or> fibers w = [Fail e] \<Longrightarrow> pending w = [] \<Longrightarrow>
       trace w = [Start 0 (mk_op c), Finish 0 (mk_op c) (Inr ()), Start 1 (assemble_op c),
                  Finish 1 (assemble_op c) (Inl e)] \<Longrightarrow> next_op w = 2 \<Longrightarrow> early dn c w"
| late: "trace w = [Start 0 (mk_op c), Finish 0 (mk_op c) (Inr ()), Start 1 (assemble_op c),
                    Finish 1 (assemble_op c) (Inr ())] @ new \<Longrightarrow>
       confined (\<lambda>op. op \<noteq> assemble_op c) w \<Longrightarrow> \<forall>ev\<in>set new. ev_op ev \<noteq> assemble_op c \<Longrightarrow> early dn c w"

section \<open>What the chain may start\<close>

lemma may_start_then_gate [machine_simps]:
  "may_start (then_gate (CBool b) action msg k) op \<longleftrightarrow>
   (if b then may_start (action k) op else may_start k op)"
  by (simp add: then_gate_def executeWhen_def)

lemma may_start_bake_fail [simp]: "\<not> may_start (bake_fail e) op"
  by (simp add: bake_fail_def)

lemma may_start_bake_success [simp]: "\<not> may_start bake_success op"
  by (simp add: bake_success_def)

lemma may_start_shell_prog [simp]: "may_start (shell_prog op') op \<longleftrightarrow> op = op'"
  by (simp add: shell_prog_def may_start_Await)

lemma may_start_rmdir_prog [simp]: "may_start (rmdir_prog p) op \<longleftrightarrow> op = ORimraf p"
  by (simp add: rmdir_prog_def may_start_Await)

lemma may_start_bake_gates:
  assumes "may_start (bake_gates dn c) op"
  shows "bake_op dn c op \<and> op \<noteq> OMkdirp (temp_path c) \<and> op \<noteq> assemble_op c \<and> op \<noteq> sass_op c"
proof -
  have "(RELINK (FLAGS c) \<and> op = relink_op dn c) \<or> (VEEV2REL (FLAGS c) \<and> op = veev2rel_op dn c) \<or>
        (SCREENSHOTS (FLAGS c) \<and> item_op (screenshot_sizes c) op) \<or>
        (PACKAGE (FLAGS c) \<and> op = pkg_op dn c) \<or> (CLEAN (FLAGS c) \<and> op = ORimraf (temp_path c))"
    using assms
    by (auto simp: bake_gates_def may_start_then_gate may_start_fork split: if_splits
             dest!: may_start_screenshots)
  then show ?thesis
    by (auto simp: bake_op_def relink_op_def veev2rel_op_def pkg_op_def assemble_op_def sass_op_def)
qed

lemma may_start_bake_sass: "may_start (bake_sass dn c) op \<Longrightarrow> bake_op dn c op \<and> op \<noteq> assemble_op c"
  by (auto simp: bake_sass_def may_start_Await bake_op_def sass_op_def assemble_op_def dest: may_start_bake_gates)

lemma may_start_bake: "may_start (bake dn c) op \<Longrightarrow> bake_op dn c op"
  by (auto simp: bake_def bake_assemble_def may_start_Await bake_op_def dest: may_start_bake_sass)

section \<open>The early phase\<close>

lemma early_step:
  assumes "step ch w = Some w'" "early dn c w"
  shows "early dn c w'"
  using assms(2)
proof cases
  case e0
  then show ?thesis using step_single_Emit [of w _ _ ch w'] assms(1)
    by (auto simp: bake_def intro: early.e1)
next
  case e1
  then show ?thesis using step_single_Await [OF e1(1) assms(1)] by (auto intro: early.e2)
next
  case e2
  from step_single_Waiting [OF e2(1,2) assms(1)] e2 obtain res where
    "fibers w' = [case res of Inl e \<Rightarrow> bake_fail e | Inr _ \<Rightarrow> bake_assemble dn c]" "pending w' = []"
    "trace w' = [Start 0 (mk_op c), Finish 0 (mk_op c) res]" "next_op w' = 1" by auto
  then show ?thesis by (cases res) (auto intro: early.e_mk_fail early.e3)
next
  case (e_mk_fail e)
  then show ?thesis using assms(1) step_single_Emit [of w _ _ ch w'] step_single_Fail [of w e ch]
    by (auto simp: bake_fail_def intro: early.e_mk_fail)
next
  case e3
  then show ?thesis using step_single_Await [of w _ _ _ ch w'] assms(1)
    by (auto simp: bake_assemble_def intro: early.e4)
next
  case e4
  from step_single_Waiting [OF e4(1,2) assms(1)] e4 obtain res where
    "fibers w' = [case res of Inl e \<Rightarrow> bake_fail e | Inr _ \<Rightarrow> bake_sass dn c]" "pending w' = []"
    "trace w' = [Start 0 (mk_op c), Finish 0 (mk_op c) (Inr ()), Start 1 (assemble_op c), Finish 1 (assemble_op c) res]"
    "next_op w' = 2" by auto
  then show ?thesis
  proof (cases res)
    case (Inl e)
    with \<open>fibers w' = _\<close> \<open>pending w' = []\<close> \<open>trace w' = _\<close> \<open>next_op w' = 2\<close> show ?thesis
      by (auto intro: early.e_as_fail)
  next
    case (Inr u)
    have "confined (\<lambda>op. op \<noteq> assemble_op c) w'"
      using \<open>fibers w' = _\<close> \<open>pending w' = []\<close> Inr by (auto simp: confined_def dest: may_start_bake_sass)
    with \<open>trace w' = _\<close> Inr show ?thesis by (auto intro: early.late [where new = "[]"])
  qed
next
  case (e_as_fail e)
  then show ?thesis using assms(1) step_single_Emit [of w _ _ ch w'] step_single_Fail [of w e ch]
    by (auto simp: bake_fail_def intro: early.e_as_fail)
next
  case (late new)
  from step_confined [OF assms(1) late(2)] obtain new' where
    "confined (\<lambda>op. op \<noteq> assemble_op c) w'" "trace w' = trace w @ new'" "\<forall>ev\<in>set new'. ev_op ev \<noteq> assemble_op c"
    by blast
  with late show ?thesis by (auto intro!: early.late [where new = "new @ new'"])
qed

lemma reach_early:
  assumes "reach (start (bake dn c) t) w"
  shows "early dn c w"
  using assms
proof (induction "start (bake dn c) t" w rule: reach.induct)
  case refl
  show ?case by (rule early.e0) (simp_all add: start_def)
next
  case (step w' ch w'')
  then show ?case by (blast intro: early_step)
qed

section \<open>The gates do not wait\<close>

lemma ticks_then_gate_fork:
  assumes "f < length (fibers w)" "fibers w ! f = then_gate (CBool b) (fork (Await op h k')) msg k"
  shows "\<exists>w'. ticks f w w' \<and> fibers w' ! f = k \<and> (b \<longrightarrow> (\<exists>oid g. (oid, op, g) \<in> set (pending w')))"
proof (cases b)
  case True
  with assms obtain w1 where
    w1: "ticks f w w1" "f < length (fibers w1)" "fibers w1 ! f = fork (Await op h k') k"
    using ticks_emits [of f w] by (fastforce simp: then_gate_def executeWhen_def)
  from ticks_fork_Await [OF w1(2,3)] obtain w2 where
    "ticks f w1 w2" "fibers w2 ! f = k" "\<exists>g. (next_op w1, op, g) \<in> set (pending w2)" by blast
  with w1(1) show ?thesis by (blast intro: ticks_trans)
next
  case False
  with assms ticks_emits [of f w] show ?thesis by (fastforce simp: then_gate_def executeWhen_def)
qed

lemma ticks_then_gate_screenshots:
  assumes "f < length (fibers w)" "fibers w ! f = then_gate (CBool b) (screenshots v sz base throw) msg k"
    and "b \<Longrightarrow> snd (scan_plan (fs w) base) = None"
  shows "\<exists>w'. ticks f w w' \<and> fibers w' ! f = k"
proof (cases b)
  case True
  with assms obtain w1 where
    w1: "ticks f w w1" "f < length (fibers w1)" "fibers w1 ! f = screenshots v sz base throw k"
    using ticks_emits [of f w] by (fastforce simp: then_gate_def executeWhen_def)
  obtain items where plan: "scan_plan (fs w1) base = (items, None)"
    using assms(3) [OF True] ticks_effect [OF w1(1)] by (cases "scan_plan (fs w) base") auto
  from ticks_screenshots [OF w1(2,3) plan] obtain w2 where "ticks f w1 w2" "fibers w2 ! f = k"
    by auto
  with w1(1) show ?thesis by (blast intro: ticks_trans)
next
  case False
  with assms ticks_emits [of f w] show ?thesis by (fastforce simp: then_gate_def executeWhen_def)
qed

lemmas demo_defs = demo_dn_def demo_main_def demo_config_def demo_tree_def demo_out_def demo_site_def
  demo_built_def demo_flags_def

lemmas run_defs = start_def bake_def bake_assemble_def bake_sass_def tick_def complete_def issue_def set_fiber_def
  log_line_def default_flags_def temp_path_def path_join_def assemble_op_def mkdir_def
  build_result_def node_callback_result path_resolve_def partials_path_def templates_path_def assets_path_def

section \<open>Properties of the chain\<close>

text \<open>
  C1: Every operation a run of \<open>bake\<close> starts (under any schedule and any outcomes
  of the outside world) is \<open>mkdir\<close> of the temporary directory, the assemble build,
  the style build, or the action of a gate whose flag is set: the relink script only
  with \<open>RELINK\<close>, the veev2rel script only with \<open>VEEV2REL\<close>, render, convert and
  PNG removal only with \<open>SCREENSHOTS\<close>, the packaging script only with \<open>PACKAGE\<close>,
  and the removal of the temporary directory (and nothing else) only with \<open>CLEAN\<close>.
\<close>

theorem bake_gate_contract:
  assumes "reach (start (bake dn c) t) w" "ev \<in> set (trace w)"
  shows "bake_op dn c (ev_op ev)"
  using may_start_bake [OF reach_start_may_start [OF assms]] .

theorem bake_gate_contract_witness:
  "\<exists>w. reach (start (bake demo_dn (demo_config default_flags)) demo_tree) w \<and>
     Start 0 (OMkdirp (temp_path (demo_config default_flags))) \<in> set (trace w) \<and>
     bake_op demo_dn (demo_config default_flags) (OMkdirp (temp_path (demo_config default_flags)))"
proof -
  have "\<exists>w. run [Tick 0, Tick 0] (start (bake demo_dn (demo_config default_flags)) demo_tree) = Some w \<and>
          Start 0 (OMkdirp (temp_path (demo_config default_flags))) \<in> set (trace w)"
    by (simp add: run_defs)
  then obtain w where r: "reach (start (bake demo_dn (demo_config default_flags)) demo_tree) w"
    and s: "Start 0 (OMkdirp (temp_path (demo_config default_flags))) \<in> set (trace w)"
    by (blast dest: reach_run)
  from bake_gate_contract [OF r s] r s show ?thesis by auto
qed

text \<open>
  C3: A failed assemble build stops the chain: the only operations a run of \<open>bake\<close>
  ever starts are \<open>mkdir\<close> of the temporary directory and the assemble build, nothing
  is pending afterwards, and \<open>bake\<close> prints the error and rejects with it.  No later
  stage (style build, scripts, screenshots, clean) runs.
\<close>

theorem bake_assemble_failure_isolated:
  assumes "reach (start (bake dn c) t) w" "Finish oid (assemble_op c) (Inl e) \<in> set (trace w)"
  shows "trace w = [Start 0 (OMkdirp (temp_path c)), Finish 0 (OMkdirp (temp_path c)) (Inr ()),
                    Start 1 (assemble_op c), Finish 1 (assemble_op c) (Inl e)] \<and>
         pending w = [] \<and> (fibers w = [bake_fail e] \<or> fibers w = [Fail e])"
  using reach_early [OF assms(1)] assms(2)
  by cases (auto simp: assemble_op_def)


theorem bake_assemble_failure_isolated_witness:
  "\<exists>w. reach (start (bake demo_dn (demo_config default_flags)) demo_tree) w \<and>
     Finish 1 (assemble_op (demo_config default_flags)) (Inl (ErrBuild ''boom'')) \<in> set (trace w) \<and>
     pending w = [] \<and> (fibers w = [bake_fail (ErrBuild ''boom'')] \<or> fibers w = [Fail (ErrBuild ''boom'')])"
proof -
  have "\<exists>w. run [Tick 0, Tick 0, Complete 0 EnvNone, Tick 0, Complete 1 (EnvBuild (Some ''boom'') demo_out)]
          (start (bake demo_dn (demo_config default_flags)) demo_tree) = Some w \<and>
          Finish 1 (assemble_op (demo_config default_flags)) (Inl (ErrBuild ''boom'')) \<in> set (trace w)"
    by (simp add: demo_defs run_defs)
  then obtain w where r: "reach (start (bake demo_dn (demo_config default_flags)) demo_tree) w"
    and f: "Finish 1 (assemble_op (demo_config default_flags)) (Inl (ErrBuild ''boom'')) \<in> set (trace w)"
    by (blast dest: reach_run)
  from bake_assemble_failure_isolated [OF r f] r f show ?thesis by blast
qed

text \<open>
  C2: The gates do not wait for their actions: from the point where the style build has
  succeeded, \<open>bake\<close>'s own fiber reaches its end (printing \<open>yum!\<close>, resolving the
  promise of \<open>bake\<close>) by its own steps alone, with no operation completing meanwhile,
  as long as the synchronous screenshot scan does not throw.  At that moment the relink,
  veev2rel and packaging scripts and the removal of the temporary directory, for each flag
  that is set, are still pending: \<open>bake\<close> has resolved before any of them finished,
  and none of their outcomes can reach it.
\<close>

theorem bake_gates_no_wait:
  assumes "f < length (fibers w)" "fibers w ! f = bake_gates dn c"
    and "SCREENSHOTS (FLAGS c) \<Longrightarrow> snd (scan_plan (fs w) (dest_path c)) = None"
  shows "\<exists>w'. ticks f w w' \<and> fibers w' ! f = Done \<and> last (console w') = Success (''yum!'' @ glyph_pizza) \<and>
           (RELINK (FLAGS c) \<longrightarrow> (\<exists>oid g. (oid, relink_op dn c, g) \<in> set (pending w'))) \<and>
           (VEEV2REL (FLAGS c) \<longrightarrow> (\<exists>oid g. (oid, veev2rel_op dn c, g) \<in> set (pending w'))) \<and>
           (PACKAGE (FLAGS c) \<longrightarrow> (\<exists>oid g. (oid, pkg_op dn c, g) \<in> set (pending w'))) \<and>
           (CLEAN (FLAGS c) \<longrightarrow> (\<exists>oid g. (oid, ORimraf (temp_path c), g) \<in> set (pending w')))"
proof -
  let ?fl = "FLAGS c"
  let ?k5 = "then_gate (CBool (CLEAN ?fl)) (fork (rmdir_prog (temp_path c))) None bake_success"
  let ?k4 = "then_gate (CBool (PACKAGE ?fl)) (fork (shell_prog (pkg_op dn c))) (Some (glyph_arrow @ '' Bagging it up'')) ?k5"
  let ?k3 = "then_gate (CBool (SCREENSHOTS ?fl)) (screenshots (VERBOSE ?fl) (screenshot_sizes c) (dest_path c) bake_fail)
               (Some (glyph_arrow @ '' Sprinkling with screenshots '')) ?k4"
  let ?k2 = "then_gate (CBool (VEEV2REL ?fl)) (fork (shell_prog (veev2rel_op dn c))) (Some (glyph_arrow @ '' VEEV2REL '')) ?k3"
  have g: "fibers w ! f = then_gate (CBool (RELINK ?fl)) (fork (Await (relink_op dn c) Fail Done))
             (Some (glyph_arrow @ '' Whipping up assets and hyperlinks '')) ?k2"
    using assms(2) by (simp add: bake_gates_def shell_prog_def)
  from ticks_then_gate_fork [OF assms(1) g] obtain w1 where
    w1: "ticks f w w1" "fibers w1 ! f = ?k2" "RELINK ?fl \<longrightarrow> (\<exists>oid g. (oid, relink_op dn c, g) \<in> set (pending w1))"
    by blast
  have l1: "f < length (fibers w1)" using ticks_length [OF w1(1) assms(1)] .
  have "fibers w1 ! f = then_gate (CBool (VEEV2REL ?fl)) (fork (Await (veev2rel_op dn c) Fail Done))
          (Some (glyph_arrow @ '' VEEV2REL '')) ?k3" using w1(2) by (simp add: shell_prog_def)
  from ticks_then_gate_fork [OF l1 this] obtain w2 where
    w2: "ticks f w1 w2" "fibers w2 ! f = ?k3" "VEEV2REL ?fl \<longrightarrow> (\<exists>oid g. (oid, veev2rel_op dn c, g) \<in> set (pending w2))"
    by blast
  have l2: "f < length (fibers w2)" using ticks_length [OF w2(1) l1] .
  have fs2: "fs w2 = fs w" using ticks_effect [OF w1(1)] ticks_effect [OF w2(1)] by simp
  from ticks_then_gate_screenshots [OF l2 w2(2)] assms(3) fs2 obtain w3 where
    w3: "ticks f w2 w3" "fibers w3 ! f = ?k4" by auto
  have l3: "f < length (fibers w3)" using ticks_length [OF w3(1) l2] .
  have "fibers w3 ! f = then_gate (CBool (PACKAGE ?fl)) (fork (Await (pkg_op dn c) Fail Done))
          (Some (glyph_arrow @ '' Bagging it up'')) ?k5" using w3(2) by (simp add: shell_prog_def)
  from ticks_then_gate_fork [OF l3 this] obtain w4 where
    w4: "ticks f w3 w4" "fibers w4 ! f = ?k5" "PACKAGE ?fl \<longrightarrow> (\<exists>oid g. (oid, pkg_op dn c, g) \<in> set (pending w4))"
    by blast
  have l4: "f < length (fibers w4)" using ticks_length [OF w4(1) l3] .
  have "fibers w4 ! f = then_gate (CBool (CLEAN ?fl)) (fork (Await (ORimraf (temp_path c)) Fail Done))
          None bake_success" using w4(2) by (simp add: rmdir_prog_def)
  from ticks_then_gate_fork [OF l4 this] obtain w5 where
    w5: "ticks f w4 w5" "fibers w5 ! f = bake_success"
      "CLEAN ?fl \<longrightarrow> (\<exists>oid g. (oid, ORimraf (temp_path c), g) \<in> set (pending w5))"
    by blast
  have l5: "f < length (fibers w5)" using ticks_length [OF w5(1) l4] .
  have "fibers w5 ! f = emits [Success (''yum!'' @ glyph_pizza)] Done"
    using w5(2) by (simp add: bake_success_def emits_def)
  from ticks_emits [OF l5 this] obtain w6 where
    w6: "ticks f w5 w6" "fibers w6 ! f = Done" "console w6 = console w5 @ [Success (''yum!'' @ glyph_pizza)]"
    by blast
  have t36: "ticks f w3 w6" using w4(1) w5(1) w6(1) by (blast intro: ticks_trans)
  have t16: "ticks f w1 w6" using w2(1) w3(1) t36 by (blast intro: ticks_trans)
  have "ticks f w w6" using w1(1) t16 by (blast intro: ticks_trans)
  moreover have "RELINK ?fl \<longrightarrow> (\<exists>oid g. (oid, relink_op dn c, g) \<in> set (pending w6))"
    using w1(3) t16 by (blast dest: ticks_pending_mono)
  moreover have "VEEV2REL ?fl \<longrightarrow> (\<exists>oid g. (oid, veev2rel_op dn c, g) \<in> set (pending w6))"
    using w2(3) w3(1) t36 by (blast dest: ticks_pending_mono intro: ticks_trans)
  moreover have "PACKAGE ?fl \<longrightarrow> (\<exists>oid g. (oid, pkg_op dn c, g) \<in> set (pending w6))"
    using w4(3) w5(1) w6(1) by (blast dest: ticks_pending_mono intro: ticks_trans)
  moreover have "CLEAN ?fl \<longrightarrow> (\<exists>oid g. (oid, ORimraf (temp_path c), g) \<in> set (pending w6))"
    using w5(3) w6(1) by (blast dest: ticks_pending_mono)
  ultimately show ?thesis using w6(2,3) by (intro exI [of _ w6]) simp
qed

theorem bake_gates_no_wait_witness:
  "\<exists>w'. ticks 0 (start (bake_gates demo_dn (demo_config demo_flags)) demo_built) w' \<and>
     fibers w' ! 0 = Done \<and> last (console w') = Success (''yum!'' @ glyph_pizza) \<and>
     (\<exists>oid g. (oid, relink_op demo_dn (demo_config demo_flags), g) \<in> set (pending w')) \<and>
     (\<exists>oid g. (oid, pkg_op demo_dn (demo_config demo_flags), g) \<in> set (pending w')) \<and>
     (\<exists>oid g. (oid, ORimraf (temp_path (demo_config demo_flags)), g) \<in> set (pending w'))"
proof -
  let ?w = "start (bake_gates demo_dn (demo_config demo_flags)) demo_built"
  have h1: "0 < length (fibers ?w)" and h2: "fibers ?w ! 0 = bake_gates demo_dn (demo_config demo_flags)"
    by (simp_all add: start_def)
  have h3: "snd (scan_plan (fs ?w) (dest_path (demo_config demo_flags))) = None"
    by (simp add: start_def scan_plan_def demo_defs dest_path_def path_join_def getDirectories_def
                  getFiles_def readdir_def is_dir_def screenshot_match_def)
  have fl: "RELINK (FLAGS (demo_config demo_flags))" "PACKAGE (FLAGS (demo_config demo_flags))"
    "CLEAN (FLAGS (demo_config demo_flags))" by (simp_all add: demo_defs)
  from bake_gates_no_wait [OF h1 h2 h3] fl show ?thesis by blast
qed

end
