(* ===== verification/Watch.thy ===== *)
theory Watch
  imports Bake
begin

text \<open>
  The entry point \<open>run()\<close> and watch mode \<open>watch()\<close> (velveeva.js, lines 360--412).
  \<open>run\<close> prints the banner and then either bakes once or, with \<open>WATCH\<close>, starts the
  watcher.  The watcher bakes once; when that bake resolves it prints
  \<open>Watching for changes\<close>, then in the \<open>.done\<close> callback (which has no rejection
  handler, so a rejected first bake is rethrown as an uncaught exception) the verbose
  settings, and registers a chokidar watcher on the four source directories.  Every
  change event prints the event and the path and calls \<open>bake()\<close> again, without
  waiting for a running bake, and reports its outcome with \<open>.done(success, error)\<close>.

  The watcher listens for ever; the model listens for \<open>n\<close> events (a fuel bound, the
  length of the run considered), and every statement below holds for all \<open>n\<close>.  A
  fiber that ends in \<open>Fail e\<close> without a handler is the uncaught exception.
\<close>

section \<open>Definitions\<close>

definition watching_msg :: log_msg where
  "watching_msg = StdOut (glyph_arrow @ '' Watching for changes (^C to quit)...'')"

definition watch_notes :: "config \<Rightarrow> log_msg list" where
  "watch_notes c =
     (if VERBOSE (FLAGS c) then
        [Note (''build: '' @ DEST (MAIN c)), Note (''source: '' @ SOURCE (MAIN c)),
         Plain (''partials: '' @ PARTIALS (MAIN c)), Plain (''global assets: '' @ ASSETS (MAIN c)),
         Plain (''templates: '' @ TEMPLATES (MAIN c))]
      else [])"

definition watch_paths :: "config \<Rightarrow> string list" where
  "watch_paths c = [SOURCE (MAIN c), PARTIALS (MAIN c), ASSETS (MAIN c), TEMPLATES (MAIN c)]"

text \<open>The change listener: \<open>bake().done(function () { success(...) }, function (err) { error(err) })\<close>.\<close>

definition on_change :: "path \<Rightarrow> config \<Rightarrow> prog" where
  "on_change dn c =
     Spawn (bake dn c)
       (\<lambda>i. Join [i] (\<lambda>e. Emit (Error (js_str e)) Done) (Emit (Success (''yum!'' @ glyph_pizza)) Done))"

text \<open>The chokidar watcher, for the next \<open>n\<close> events.\<close>

primrec watch_events :: "path \<Rightarrow> config \<Rightarrow> nat \<Rightarrow> prog" where
  "watch_events dn c 0 = Done"
| "watch_events dn c (Suc n) = Await (OWatch (watch_paths c)) Fail (fork (on_change dn c) (watch_events dn c n))"

text \<open>
  \<open>watcher()\<close>: \<open>bake().then(stdOut(...)).done(register)\<close>.  The first bake runs in a
  fiber of its own; the chain waits for it, and what follows its success is
  \<open>after_first_bake\<close>.
\<close>

definition after_first_bake :: "path \<Rightarrow> config \<Rightarrow> nat \<Rightarrow> prog" where
  "after_first_bake dn c n = Emit watching_msg (emits (watch_notes c) (watch_events dn c n))"

definition watcher :: "path \<Rightarrow> config \<Rightarrow> nat \<Rightarrow> prog" where
  "watcher dn c n = Spawn (bake dn c) (\<lambda>i. Join [i] Fail (after_first_bake dn c n))"

definition banner :: "log_msg list" where
  "banner =
     [Plain ''  _   ________ _   ___________   _____ '',
      Plain '' | | / / __/ /| | / / __/ __| | / / _ |'',
      Plain '' | |/ / _// /_| |/ / _// _/ | |/ / __ |'',
      Plain '' |___/___/____|___/___/___/ |___/_/ |_|'',
      Plain '''']"

definition velveeva_run :: "path \<Rightarrow> config \<Rightarrow> nat \<Rightarrow> prog" where
  "velveeva_run dn c n = emits banner (if WATCH (FLAGS c) then watcher dn c n else bake dn c)"

text \<open>The chokidar registration, the one operation of watch mode that is not a bake's.\<close>

fun is_watch_op :: "ext_op \<Rightarrow> bool" where
  "is_watch_op (OWatch ps) = True"
| "is_watch_op _ = False"

text \<open>
  The phases of a watch-mode run: the start; the first bake running in fiber 1 while the
  watcher waits for it (no registration yet, and nothing but the bake's operations
  started or pending); the first bake rejected and rethrown by the watcher; the first
  bake resolved.
\<close>

inductive watch_phase :: "path \<Rightarrow> config \<Rightarrow> nat \<Rightarrow> world \<Rightarrow> bool" for dn c n where
  w_start: "fibers w = [watcher dn c n] \<Longrightarrow> pending w = [] \<Longrightarrow> trace w = [] \<Longrightarrow> watch_phase dn c n w"
| w_wait: "1 < length (fibers w) \<Longrightarrow> fibers w ! 0 = Join [1] Fail (after_first_bake dn c n) \<Longrightarrow>
           confined_from (\<lambda>op. \<not> is_watch_op op) 1 w \<Longrightarrow> \<forall>ev\<in>set (trace w). \<not> is_watch_op (ev_op ev) \<Longrightarrow>
           watch_phase dn c n w"
| w_crash: "1 < length (fibers w) \<Longrightarrow> fibers w ! 0 = Fail e \<Longrightarrow> fibers w ! 1 = Fail e \<Longrightarrow>
           confined_from (\<lambda>op. \<not> is_watch_op op) 1 w \<Longrightarrow> \<forall>ev\<in>set (trace w). \<not> is_watch_op (ev_op ev) \<Longrightarrow>
           watch_phase dn c n w"
| w_ok: "1 < length (fibers w) \<Longrightarrow> fibers w ! 1 = Done \<Longrightarrow> watch_phase dn c n w"

section \<open>The phases of watch mode\<close>

lemma may_start_bake_not_watch: "may_start (bake dn c) op \<Longrightarrow> \<not> is_watch_op op"
  by (drule may_start_bake) (auto simp: bake_op_def relink_op_def veev2rel_op_def pkg_op_def
                                   assemble_op_def sass_op_def elim: item_op.elims)

lemma watch_step_start:
  assumes "step ch w = Some w'" "fibers w = [watcher dn c n]" "pending w = []" "trace w = []"
  shows "watch_phase dn c n w'"
proof (cases ch)
  case (Tick f)
  with assms have f: "f = 0" and t: "tick_prog 0 (watcher dn c n) w = Some w'"
    by (auto simp: tick_def split: if_splits)
  obtain i w1 where l: "launch (bake dn c) w = (i, w1)" by fastforce
  have "bake dn c = emits [Note (glyph_arrow @ '' Baking '')]
          (Await (OMkdirp (temp_path c)) bake_fail (bake_assemble dn c))"
    by (simp add: bake_def emits_def)
  with l have "launch (emits [Note (glyph_arrow @ '' Baking '')]
          (Await (OMkdirp (temp_path c)) bake_fail (bake_assemble dn c))) w = (i, w1)" by simp
  from launch_emits_Await [OF this] assms(2) have i: "i = 1" and len: "length (fibers w1) = 2"
    by simp_all
  have w': "w' = set_fiber 0 (Join [1] Fail (after_first_bake dn c n)) w1"
    using t l i by (simp add: watcher_def after_first_bake_def)
  have c0: "confined_from (\<lambda>op. \<not> is_watch_op op) 1 w"
    using assms(2,3) by (simp add: confined_from_def)
  from launch_confined_from [OF l c0] assms(2) may_start_bake_not_watch
  have c1: "confined_from (\<lambda>op. \<not> is_watch_op op) 1 w1" and
    tr: "\<exists>new. trace w1 = trace w @ new \<and> (\<forall>ev\<in>set new. \<not> is_watch_op (ev_op ev))"
    by auto
  have "confined_from (\<lambda>op. \<not> is_watch_op op) 1 w'"
    using confined_from_set_fiber [OF c1, of 0] len w' by simp
  moreover have "\<forall>ev\<in>set (trace w'). \<not> is_watch_op (ev_op ev)"
    using tr assms(4) w' by (auto simp: set_fiber_def)
  ultimately show ?thesis using len w' by (auto simp: set_fiber_def intro: w_wait)
next
  case (Complete oid r)
  with assms show ?thesis by (simp add: complete_def)
qed

lemma watch_step_others:
  assumes "step ch w = Some w'" "confined_from (\<lambda>op. \<not> is_watch_op op) 1 w"
    and "\<forall>ev\<in>set (trace w). \<not> is_watch_op (ev_op ev)" "ch \<noteq> Tick 0"
  shows "confined_from (\<lambda>op. \<not> is_watch_op op) 1 w' \<and> (\<forall>ev\<in>set (trace w'). \<not> is_watch_op (ev_op ev))"
proof -
  have "\<And>f. ch = Tick f \<Longrightarrow> 1 \<le> f" using assms(4) by auto
  from step_confined_from [OF assms(1,2) this] assms(3) show ?thesis by auto
qed

lemma watch_step:
  assumes "step ch w = Some w'" "watch_phase dn c n w"
  shows "watch_phase dn c n w'"
  using assms(2)
proof cases
  case w_start
  then show ?thesis using watch_step_start [OF assms(1)] by blast
next
  case w_wait
  show ?thesis
  proof (cases "ch = Tick 0")
    case True
    have ne: "fibers w \<noteq> []" using w_wait(1) by (cases "fibers w") auto
    with True assms(1) have t0: "tick_prog 0 (fibers w ! 0) w = Some w'"
      by (simp add: tick_def)
    then have t: "tick_prog 0 (Join [1] Fail (after_first_bake dn c n)) w = Some w'"
      by (simp only: w_wait(2))
    show ?thesis
    proof (cases "first_failure [1] (fibers w)")
      case (Some e)
      with w_wait have f1: "fibers w ! 1 = Fail e"
        by (auto split: prog.splits if_splits)
      from t Some have w': "w' = set_fiber 0 (Fail e) w" by simp
      show ?thesis
      proof (rule w_crash)
        show "1 < length (fibers w')" using w' w_wait(1) by (simp add: set_fiber_def)
        show "fibers w' ! 0 = Fail e" using w' ne by (simp add: set_fiber_def)
        show "fibers w' ! 1 = Fail e" using w' f1 by (simp add: set_fiber_def)
        show "confined_from (\<lambda>op. \<not> is_watch_op op) 1 w'"
          using confined_from_set_fiber [OF w_wait(3), of 0] ne w' by simp
        show "\<forall>ev\<in>set (trace w'). \<not> is_watch_op (ev_op ev)" using w' w_wait(4) by (simp add: set_fiber_def)
      qed
    next
      case None
      with t have "all_done [1] (fibers w)" and w': "w' = set_fiber 0 (after_first_bake dn c n) w"
        by (simp_all split: if_splits)
      then have "fibers w ! 1 = Done" by (auto simp: all_done_def elim: is_done.elims)
      with w' w_wait show ?thesis by (auto simp: set_fiber_def intro: w_ok)
    qed
  next
    case False
    have ne: "0 < length (fibers w)" using w_wait(1) by (cases "fibers w") auto
    from step_keeps_unmoved [OF assms(1) ne False] w_wait
    have "1 < length (fibers w')" "fibers w' ! 0 = Join [1] Fail (after_first_bake dn c n)"
      using step_fiber [OF assms(1), of 1] by auto
    with watch_step_others [OF assms(1) w_wait(3,4) False] show ?thesis by (intro watch_phase.w_wait) simp_all
  qed
next
  case (w_crash e)
  have n0: "ch \<noteq> Tick 0" using assms(1) w_crash(2) by (auto simp: tick_def split: if_splits)
  have n1: "ch \<noteq> Tick 1" using assms(1) w_crash(3) by (auto simp: tick_def split: if_splits)
  from step_keeps_unmoved [OF assms(1) _ n0] step_keeps_unmoved [OF assms(1) _ n1] w_crash
  have "1 < length (fibers w')" "fibers w' ! 0 = Fail e" "fibers w' ! 1 = Fail e" by auto
  with watch_step_others [OF assms(1) w_crash(4,5) n0] show ?thesis by (intro watch_phase.w_crash [of _ e]) simp_all
next
  case w_ok
  from step_keeps_Done [OF assms(1) w_ok(1)] w_ok show ?thesis by (auto intro: watch_phase.w_ok)
qed

lemma reach_watch:
  assumes "reach (start (watcher dn c n) t) w"
  shows "watch_phase dn c n w"
  using assms
proof (induction "start (watcher dn c n) t" w rule: reach.induct)
  case refl
  show ?case by (rule w_start) (simp_all add: start_def)
next
  case (step w' ch w'')
  then show ?case by (blast intro: watch_step)
qed

section \<open>What watch mode may start\<close>

lemma may_start_on_change: "may_start (on_change dn c) op \<Longrightarrow> bake_op dn c op"
  by (auto simp: on_change_def may_start_Spawn may_start_Join dest: may_start_bake)

lemma may_start_watch_events:
  "may_start (watch_events dn c n) op \<Longrightarrow> bake_op dn c op \<or> op = OWatch (watch_paths c)"
  by (induction n) (auto simp: may_start_Await may_start_fork dest: may_start_on_change)

lemma may_start_watcher:
  "may_start (watcher dn c n) op \<Longrightarrow> bake_op dn c op \<or> op = OWatch (watch_paths c)"
  by (auto simp: watcher_def after_first_bake_def may_start_Spawn may_start_Join
           dest: may_start_bake may_start_watch_events)

section \<open>Properties\<close>

lemmas watch_defs = watcher_def after_first_bake_def watch_notes_def watch_paths_def watching_msg_def
  bake_gates_def then_gate_def executeWhen_def bake_success_def emits_def fork_def sass_op_def bake_fail_def

text \<open>
  C9: Watch mode registers its chokidar watcher only once the first bake has resolved:
  whenever a run has started the watch operation, the first bake (fiber 1) has ended
  successfully.
\<close>

theorem watch_only_after_first_bake:
  assumes "reach (start (watcher dn c n) t) w" "ev \<in> set (trace w)" "is_watch_op (ev_op ev)"
  shows "1 < length (fibers w) \<and> fibers w ! 1 = Done"
  using reach_watch [OF assms(1)] assms(2,3) by cases (auto simp: start_def)

theorem watch_only_after_first_bake_witness:
  "\<exists>w. reach (start (watcher demo_dn (demo_config default_flags) 1) demo_tree) w \<and>
     Start 3 (OWatch (watch_paths (demo_config default_flags))) \<in> set (trace w) \<and>
     is_watch_op (OWatch (watch_paths (demo_config default_flags))) \<and>
     1 < length (fibers w) \<and> fibers w ! 1 = Done"
proof -
  have "\<exists>w. run [Tick 0, Complete 0 EnvNone, Tick 1, Complete 1 (EnvBuild None demo_out), Tick 1, Tick 1,
                 Complete 2 (EnvBuild None demo_out), Tick 1, Tick 0, Tick 0, Tick 0]
            (start (watcher demo_dn (demo_config default_flags) 1) demo_tree) = Some w \<and>
          Start 3 (OWatch (watch_paths (demo_config default_flags))) \<in> set (trace w)"
    by (simp add: demo_defs run_defs watch_defs add_fiber_def all_done_def)
  then obtain w where r: "reach (start (watcher demo_dn (demo_config default_flags) 1) demo_tree) w"
    and s: "Start 3 (OWatch (watch_paths (demo_config default_flags))) \<in> set (trace w)"
    by (blast dest: reach_run)
  have i: "is_watch_op (ev_op (Start 3 (OWatch (watch_paths (demo_config default_flags)))))" by simp
  moreover have "is_watch_op (OWatch (watch_paths (demo_config default_flags)))" by simp
  ultimately show ?thesis using watch_only_after_first_bake [OF r s i] r s by blast
qed

text \<open>
  C10: A failed first bake is fatal in watch mode: if the first bake (fiber 1) has
  rejected with \<open>e\<close>, no watcher has been registered, and the watcher chain has
  rethrown \<open>e\<close> or will do so at its next step (the \<open>.done\<close> of line 376 has no
  rejection handler, so Q throws \<open>e\<close> as an uncaught exception).
\<close>

theorem watch_first_failure_rethrown:
  assumes "reach (start (watcher dn c n) t) w" "1 < length (fibers w)" "fibers w ! 1 = Fail e"
  shows "(\<forall>ev\<in>set (trace w). \<not> is_watch_op (ev_op ev)) \<and>
         (fibers w ! 0 = Fail e \<or> (\<exists>w'. tick 0 w = Some w' \<and> fibers w' ! 0 = Fail e))"
  using reach_watch [OF assms(1)] assms(2,3)
proof cases
  case w_wait
  moreover have ne: "fibers w \<noteq> []" using w_wait(1) by (cases "fibers w") auto
  ultimately have "tick 0 w = Some (set_fiber 0 (Fail e) w)" using assms(3) by (simp add: tick_def)
  moreover have "fibers (set_fiber 0 (Fail e) w) ! 0 = Fail e" using ne by (simp add: set_fiber_def)
  ultimately show ?thesis using w_wait(4) by blast
qed auto

theorem watch_first_failure_rethrown_witness:
  "\<exists>w. reach (start (watcher demo_dn (demo_config default_flags) 1) demo_tree) w \<and>
     1 < length (fibers w) \<and> fibers w ! 1 = Fail (ErrBuild ''boom'') \<and>
     (\<forall>ev\<in>set (trace w). \<not> is_watch_op (ev_op ev)) \<and>
     (fibers w ! 0 = Fail (ErrBuild ''boom'') \<or>
      (\<exists>w'. tick 0 w = Some w' \<and> fibers w' ! 0 = Fail (ErrBuild ''boom'')))"
proof -
  have "\<exists>w. run [Tick 0, Complete 0 EnvNone, Tick 1, Complete 1 (EnvBuild (Some ''boom'') demo_out), Tick 1]
            (start (watcher demo_dn (demo_config default_flags) 1) demo_tree) = Some w \<and>
          1 < length (fibers w) \<and> fibers w ! 1 = Fail (ErrBuild ''boom'')"
    by (simp add: demo_defs run_defs watch_defs add_fiber_def)
  then obtain w where r: "reach (start (watcher demo_dn (demo_config default_flags) 1) demo_tree) w"
    and l: "1 < length (fibers w)" and f: "fibers w ! 1 = Fail (ErrBuild ''boom'')"
    by (blast dest: reach_run)
  from watch_first_failure_rethrown [OF r l f] r l f show ?thesis
    by blast
qed

end
