(* ===== verification/Spec2Isabelle.thy ===== *)
theory Spec2Isabelle
  imports Watch
begin

text \<open>
  \<^bold>\<open>A verification model of VELVEEVA's build orchestrator.\<close>

  The program is one JavaScript module, \<^verbatim>\<open>src/lib/velveeva.js\<close>: the constructor
  \<open>Velveeva(configRecipe)\<close> builds a configuration and defines, as closures over it,
  the helpers and the pipeline.  Its parts and how they interact:
  \<^item> configuration (lines 3--49): the recipe's \<open>MAIN\<close> directories with their
    defaults, the eight flags, the screenshot sizes;
  \<^item> promise bridges (lines 51--115): Metalsmith builds, \<open>mkdirp\<close>, \<open>rimraf\<close> and
    \<open>fs.unlink\<close> turned into Q promises;
  \<^item> directory listings (lines 118--128) and the console helpers (lines 130--133);
  \<^item> the stage gate \<open>executeWhen\<close> (lines 135--147);
  \<^item> the pipeline \<open>bake\<close> (lines 149--214): one Q chain that awaits \<open>mkdir\<close>, the
    assemble build and the style build, then runs five gate callbacks (relink, veev2rel,
    screenshots, package, clean) and reports with \<open>.done\<close>;
  \<^item> the shell runner \<open>runShellScript\<close> (lines 216--239) and the scripted stages
    \<open>relink\<close>, \<open>veev2rel\<close>, \<open>pkg\<close> (lines 241--247, 356--358);
  \<^item> the screenshot stage (lines 249--354): a synchronous scan, one PhantomJS and
    ImageMagick pipeline per matching page, \<open>Q.all\<close> over them;
  \<^item> watch mode and \<open>run\<close> (lines 360--412).

  \<^bold>\<open>Theories.\<close>
  \<^item> \<open>Prelude\<close>: console messages (\<open>log_msg\<close>), JavaScript errors (\<open>js_err\<close>),
    decimal rendering of numbers, and shared lemmas on sums and association lists.
  \<^item> \<open>Paths\<close>: \<open>path.join\<close>, \<open>path.resolve\<close> and the reading of a path string.
  \<^item> \<open>FileSys\<close>: the file system as a tree; \<open>mkdir\<close>, \<open>rmdir\<close>, \<open>rm\<close>,
    \<open>getDirectories\<close>, \<open>getFiles\<close>, each returning its promise's settlement, the new
    tree and its console output.
  \<^item> \<open>Config\<close>: the records \<open>recipe\<close>, \<open>main_cfg\<close>, \<open>flags\<close>, \<open>config\<close> and the
    constructor \<open>Velveeva\<close>, which fails with a \<open>TypeError\<close> where the code throws.
  \<^item> \<open>Gate\<close>: \<open>executeWhen\<close>, returning the notes it prints and whether it invoked
    its action.
  \<^item> \<open>Deferred\<close>: Q deferreds (\<open>pstate\<close>, \<open>settle\<close>) and the callback bridges.
  \<^item> \<open>Shell\<close>: \<open>runShellScript\<close> as a fold over the process's events.
  \<^item> \<open>Effects\<close>: the asynchronous operations (\<open>ext_op\<close>) and how each completes
    (\<open>op_result\<close>) with data chosen by the environment (\<open>env_res\<close>).
  \<^item> \<open>Machine\<close>: the promise machine.  A Q chain is a fiber whose program is a
    \<open>prog\<close> in continuation-passing form; a \<open>world\<close> holds the tree, the fibers,
    the pending operations, the console and a trace of starts and finishes.  \<open>step\<close>
    either advances one fiber (\<open>Tick\<close>) or completes one pending operation
    (\<open>Complete\<close>); \<open>run\<close> executes a schedule, \<open>reach\<close> is every schedule.
  \<^item> \<open>Confine\<close>: the operations a program may start (\<open>may_start\<close>) and the
    confinement of runs; \<open>Progress\<close>: runs of one fiber alone (\<open>ticks\<close>), what a
    fiber may become (\<open>fiber_next\<close>) and reject with (\<open>may_fail\<close>).
  \<^item> \<open>Screenshot\<close>: the regex filter (\<open>rx_search\<close>), \<open>takeScreenshot\<close>,
    the scan (\<open>spawn_items\<close>, \<open>scan_dirs\<close>, \<open>screenshots\<close>) and the scan's
    reference result \<open>scan_plan\<close>.
  \<^item> \<open>Bake\<close>: \<open>bake\<close> as the composition \<open>bake\<close> / \<open>bake_assemble\<close> /
    \<open>bake_sass\<close> / \<open>bake_gates\<close>, each gate a \<open>then_gate\<close> over \<open>executeWhen\<close>.
  \<^item> \<open>Watch\<close>: \<open>watcher\<close>, \<open>on_change\<close>, \<open>watch_events\<close>, \<open>velveeva_run\<close>.
  \<^item> \<open>Examples\<close>: the concrete project, site and configurations the witnesses use.

  \<^bold>\<open>What the lemmas show.\<close>  The configuration defaults and the constructor's
  failure; the gate's condition fold; the runner's settlement by the first exit and its
  logging; the path round trip; the file-system wrappers.  For the pipeline: every
  operation a run of \<open>bake\<close> starts is a stage or the action of a set flag (a
  confinement invariant over all schedules); a failed assemble build stops everything
  after it (a phase invariant, \<open>early\<close>); once the style build has succeeded
  \<open>bake\<close> resolves by its own steps while the gated actions are still pending, the
  formal form of the finding that the gate callbacks do not return their promises.  For
  the screenshots: the scan starts one render per match in order; the filter is
  characterised exactly and refines the intended selection; an item only ever rejects
  with \<open>undefined\<close>.  For watch mode: the watcher is registered only after the first
  bake succeeded, and a failed first bake is rethrown.

  \<^bold>\<open>Bounds and fuel.\<close>  The machine has no fuel: \<open>reach\<close> covers runs of every
  length, and the liveness statement is an existence of a finite run of one fiber.  Watch
  mode listens for \<open>n\<close> change events (\<open>watch_events\<close> recurses on \<open>n\<close>); the
  statements hold for every \<open>n\<close>, so for every finite prefix of a run of the real
  watcher.  Numbers are \<open>nat\<close> (sizes, operation numbers) or \<open>int\<close> (exit statuses):
  JavaScript doubles never wrap in this code.

  \<^bold>\<open>Not modelled.\<close>  The libraries are contracts, not code: Metalsmith and its
  plugins (a build writes a tree the environment chooses; reading the source is not
  modelled, so races on the temporary directory show as interleavings only), PhantomJS,
  ImageMagick, chokidar (its ignore pattern and \<open>ignoreInitial\<close> are the environment's
  choice of events) and the child processes.  Console colours and the emoji prefixes of
  \<open>error\<close> and \<open>success\<close> are dropped.  The regex filter is exact for directory
  names whose only metacharacter is \<open>.\<close>; other metacharacters are read literally,
  where JavaScript would interpret them or throw.  Strings are Isabelle character lists
  (bytes), where JavaScript counts UTF-16 code units.  The \<open>'error'\<close> event of a
  spawned process (a missing interpreter) is not modelled.  The module's exports (lines
  1, 414--415) have no behaviour.
\<close>

section \<open>The entry point\<close>

lemmas entry_defs = velveeva_run_def banner_def emits_def start_def tick_def set_fiber_def log_line_def
  bake_def issue_def

text \<open>
  C8: Every operation a run of \<open>run()\<close> starts is an operation \<open>bake\<close> may start
  under the configuration, or, in watch mode only, the chokidar watcher on the four
  source directories.
\<close>

theorem velveeva_run_contract:
  assumes "reach (start (velveeva_run dn c n) t) w" "ev \<in> set (trace w)"
  shows "bake_op dn c (ev_op ev) \<or> (WATCH (FLAGS c) \<and> ev_op ev = OWatch (watch_paths c))"
proof -
  have "may_start (velveeva_run dn c n) (ev_op ev)" by (rule reach_start_may_start [OF assms])
  then show ?thesis
    by (auto simp: velveeva_run_def split: if_splits dest: may_start_bake may_start_watcher)
qed

theorem velveeva_run_contract_witness:
  "\<exists>w. reach (start (velveeva_run demo_dn (demo_config default_flags) 0) demo_tree) w \<and>
     Start 0 (OMkdirp (temp_path (demo_config default_flags))) \<in> set (trace w) \<and>
     bake_op demo_dn (demo_config default_flags) (OMkdirp (temp_path (demo_config default_flags)))"
proof -
  have "\<exists>w. run (replicate 7 (Tick 0)) (start (velveeva_run demo_dn (demo_config default_flags) 0) demo_tree) = Some w \<and>
          Start 0 (OMkdirp (temp_path (demo_config default_flags))) \<in> set (trace w)"
    by (simp add: entry_defs numeral_eq_Suc demo_config_def default_flags_def)
  then obtain w where r: "reach (start (velveeva_run demo_dn (demo_config default_flags) 0) demo_tree) w"
    and s: "Start 0 (OMkdirp (temp_path (demo_config default_flags))) \<in> set (trace w)"
    by (blast dest: reach_run)
  from velveeva_run_contract [OF r s] r s show ?thesis by auto
qed

end
